theory Spec2Isabelle
  imports Complex_Main
begin

section \<open>Conventions of the embedding\<close>

text \<open>
  The scripts compute with Python floats. A finite float is modelled by the real number
  it stands for and the arithmetic on finite floats by the exact arithmetic of the reals
  (no rounding, no overflow); every tolerance of the source (\<open>1e-10\<close>, \<open>1e-9\<close>, \<open>1e-6\<close>) is
  kept as the rational number it denotes. The special floats that the source builds or
  tests for explicitly (\<open>float('inf')\<close>, \<open>float('nan')\<close>, \<open>math.isfinite\<close>) are the
  extra constructors of \<open>pyfloat\<close>. A Python list of floats is a \<open>real list\<close>, a raised
  exception is the left summand of a sum type.

  Two parts of the development leave this convention, because a claim is decided there by
  what the convention abstracts from. The angle between two vectors is modelled a second
  time with every operation rounded to binary64 (\<open>angle_fl\<close>), and the value that
  \<open>eval\<close> returns in the limit scripts is any Python object (\<open>pyval\<close>), not only a
  float.
\<close>

datatype py_error = ValueError | IndexError | ZeroDivisionError | TypeError | OverflowError

datatype pyfloat = Fin real | PInf | NInf | NaN

text \<open>\<open>math.degrees\<close> and \<open>math.radians\<close> multiply by \<open>180/pi\<close> and \<open>pi/180\<close>.\<close>

definition degrees :: "real \<Rightarrow> real" where
  "degrees r = r * (180 / pi)"

definition radians :: "real \<Rightarrow> real" where
  "radians d = d * (pi / 180)"

section \<open>vector\_master.py: core vector operations\<close>

text \<open>\<open>magnitude(v) = math.sqrt(sum(x*x for x in v))\<close>\<close>

definition magnitude :: "real list \<Rightarrow> real" where
  "magnitude v = sqrt (sum_list (map (\<lambda>x. x * x) v))"

text \<open>\<open>dot(u, v) = sum(a*b for a, b in zip(u, v))\<close>; \<open>zip\<close> stops at the shorter list.\<close>

definition dot :: "real list \<Rightarrow> real list \<Rightarrow> real" where
  "dot u v = sum_list (map (\<lambda>(a, b). a * b) (zip u v))"

text \<open>\<open>cross(u, v)\<close> raises ValueError unless both operands have three components.\<close>

definition cross :: "real list \<Rightarrow> real list \<Rightarrow> py_error + real list" where
  "cross u v =
     (if length u \<noteq> 3 \<or> length v \<noteq> 3 then Inl ValueError
      else let x = u ! 1 * v ! 2 - u ! 2 * v ! 1;
               y = u ! 2 * v ! 0 - u ! 0 * v ! 2;
               z = u ! 0 * v ! 1 - u ! 1 * v ! 0
           in Inr [x, y, z])"

definition scalar_triple :: "real list \<Rightarrow> real list \<Rightarrow> real list \<Rightarrow> py_error + real" where
  "scalar_triple u v w =
     (case cross v w of Inl e \<Rightarrow> Inl e | Inr c \<Rightarrow> Inr (dot u c))"

text \<open>\<open>unit(v)\<close>: \<open>m = magnitude(v)\<close>; raise ValueError if \<open>m < 1e-10\<close>; else \<open>[x/m for x in v]\<close>.\<close>

definition unit :: "real list \<Rightarrow> py_error + real list" where
  "unit v =
     (let m = magnitude v
      in if m < 1 / 10 ^ 10 then Inl ValueError else Inr (map (\<lambda>x. x / m) v))"

text \<open>
  \<open>angle(u, v)\<close>: the dot product and both magnitudes are computed first, the zero test
  raises ValueError, the cosine is clamped by \<open>max(-1.0, min(1.0, .))\<close> and the result is
  \<open>math.degrees(math.acos(.))\<close>.
\<close>

definition angle :: "real list \<Rightarrow> real list \<Rightarrow> py_error + real" where
  "angle u v =
     (let d = dot u v; mu = magnitude u; mv = magnitude v
      in if mu < 1 / 10 ^ 10 \<or> mv < 1 / 10 ^ 10 then Inl ValueError
         else let cos_theta = max (- 1) (min 1 (d / (mu * mv)))
              in Inr (degrees (arccos cos_theta)))"

text \<open>
  \<open>linear_dependence(vectors)\<close> returns \<open>True\<close>, \<open>False\<close> or, for an unsupported
  configuration, a message string. The loop of the two-vector branch runs over
  \<open>range(1, len(vectors[0]))\<close> and carries \<open>ratio\<close> (\<open>None\<close> or a float); reading
  \<open>vectors[1][i]\<close> past the end of the second vector raises IndexError.
\<close>

datatype ld_result = PyBool bool | PyStr string

fun ld_loop :: "real list \<Rightarrow> real list \<Rightarrow> nat list \<Rightarrow> real option \<Rightarrow> py_error + bool" where
  "ld_loop u v [] ratio = Inr True"
| "ld_loop u v (i # rest) ratio =
     (if length v \<le> i then Inl IndexError
      else if \<bar>v ! i\<bar> < 1 / 10 ^ 10 then
        (if \<bar>u ! i\<bar> > 1 / 10 ^ 10 then Inr False else ld_loop u v rest ratio)
      else let r = u ! i / v ! i
           in (case ratio of
                 None \<Rightarrow> ld_loop u v rest (Some r)
               | Some q \<Rightarrow> if \<bar>r - q\<bar> > 1 / 10 ^ 6 then Inr False
                           else ld_loop u v rest ratio))"

definition linear_dependence :: "real list list \<Rightarrow> py_error + ld_result" where
  "linear_dependence vectors =
     (if length vectors = 2 then
        (let u = vectors ! 0; v = vectors ! 1
         in if magnitude u < 1 / 10 ^ 10 \<or> magnitude v < 1 / 10 ^ 10 then Inr (PyBool True)
            else let ratio = (if \<bar>v ! 0\<bar> > 1 / 10 ^ 10 then Some (u ! 0 / v ! 0) else None)
                 in (case ld_loop u v [1 ..< length u] ratio of
                       Inl e \<Rightarrow> Inl e
                     | Inr b \<Rightarrow> Inr (PyBool b)))
      else if length vectors = 3 \<and> length (vectors ! 0) = 3 then
        (case scalar_triple (vectors ! 0) (vectors ! 1) (vectors ! 2) of
           Inl e \<Rightarrow> Inl e
         | Inr t \<Rightarrow> Inr (PyBool (\<bar>t\<bar> < 1 / 10 ^ 6)))
      else Inr (PyStr ''Cannot determine for this configuration''))"

section \<open>vector\_master.py: the angle with binary64 rounding\<close>

text \<open>
  Rounding of a real number to the nearest binary64 number, ties to even: 53 significant
  bits, so a number in \<open>[2^e, 2^(e+1))\<close> is rounded to a multiple of \<open>2^(e-52)\<close>.
  Overflow and subnormal numbers are not modelled.
\<close>

definition round_half_even :: "real \<Rightarrow> int" where
  "round_half_even z =
     (let n = \<lfloor>z\<rfloor>
      in if z - of_int n < 1 / 2 then n
         else if 1 / 2 < z - of_int n then n + 1
         else if even n then n else n + 1)"

definition rnd :: "real \<Rightarrow> real" where
  "rnd x =
     (if x = 0 then 0
      else let e = \<lfloor>log 2 \<bar>x\<bar>\<rfloor>;
               u = 2 powr (of_int e - 52)
           in u * of_int (round_half_even (x / u)))"

text \<open>
  \<open>sum(...)\<close> starts from 0 and adds the items from left to right, each addition rounded
  (CPython 3.12 and later compensate the rounding errors of the additions; the sums
  evaluated in this development are exact either way).
\<close>

definition fl_sum :: "real list \<Rightarrow> real" where
  "fl_sum xs = foldl (\<lambda>s x. rnd (s + x)) 0 xs"

definition magnitude_fl :: "real list \<Rightarrow> real" where
  "magnitude_fl v = rnd (sqrt (fl_sum (map (\<lambda>x. rnd (x * x)) v)))"

definition dot_fl :: "real list \<Rightarrow> real list \<Rightarrow> real" where
  "dot_fl u v = fl_sum (map (\<lambda>(a, b). rnd (a * b)) (zip u v))"

text \<open>
  \<open>math.pi\<close> is the binary64 number \<open>0x1.921fb54442d18p+1\<close>; \<open>math.degrees(x)\<close> is
  \<open>x * (180.0 / pi)\<close> in binary64. \<open>math.sqrt\<close> and \<open>math.acos\<close> are taken as the exact
  function followed by one rounding.
\<close>

definition pi_fl :: real where
  "pi_fl = 884279719003555 / 2 ^ 48"

definition degrees_fl :: "real \<Rightarrow> real" where
  "degrees_fl x = rnd (x * rnd (180 / pi_fl))"

definition angle_fl :: "real list \<Rightarrow> real list \<Rightarrow> py_error + real" where
  "angle_fl u v =
     (let d = dot_fl u v; mu = magnitude_fl u; mv = magnitude_fl v
      in if mu < rnd (1 / 10 ^ 10) \<or> mv < rnd (1 / 10 ^ 10) then Inl ValueError
         else let cos_theta = max (- 1) (min 1 (rnd (d / rnd (mu * mv))))
              in Inr (degrees_fl (rnd (arccos cos_theta))))"

section \<open>line\_master.py: the general form and its derived properties\<close>

definition deg2rad :: "real \<Rightarrow> real" where
  "deg2rad d = radians d"

definition rad2deg :: "real \<Rightarrow> real" where
  "rad2deg r = degrees r"

text \<open>
  Python's \<open>x % m\<close> on floats with a positive modulus: the result has the sign of \<open>m\<close>,
  that is \<open>x - m * floor(x / m)\<close>.
\<close>

definition pymod :: "real \<Rightarrow> real \<Rightarrow> real" where
  "pymod x m = x - m * of_int \<lfloor>x / m\<rfloor>"

text \<open>\<open>normalize_angle(deg) = ((deg + 180) % 360) - 180\<close>\<close>

definition normalize_angle :: "real \<Rightarrow> real" where
  "normalize_angle deg = pymod (deg + 180) 360 - 180"

text \<open>
  \<open>math.atan2(y, x)\<close> on reals: the angle of the point \<open>(x, y)\<close> in \<open>[-pi, pi]\<close>, with
  \<open>atan2(0, x) = pi\<close> for negative \<open>x\<close> (the reals have one zero; the float \<open>-0.0\<close> is
  not modelled).
\<close>

definition atan2 :: "real \<Rightarrow> real \<Rightarrow> real" where
  "atan2 y x =
     (if 0 < x then arctan (y / x)
      else if x < 0 then (if 0 \<le> y then arctan (y / x) + pi else arctan (y / x) - pi)
      else if 0 < y then pi / 2
      else if y < 0 then - (pi / 2)
      else 0)"

definition hypot :: "real \<Rightarrow> real \<Rightarrow> real" where
  "hypot a b = sqrt (a * a + b * b)"

text \<open>
  The dictionary returned by \<open>line_from_general\<close>. The keys \<open>'A'\<close>, \<open>'B'\<close>, \<open>'C'\<close> are
  the fields \<open>coef_A\<close>, \<open>coef_B\<close>, \<open>coef_C\<close>; \<open>None\<close> is \<open>None\<close>; the slope is a float
  that may be \<open>float('inf')\<close>.
\<close>

record line_props =
  coef_A :: real
  coef_B :: real
  coef_C :: real
  slope :: pyfloat
  x_intercept :: "real option"
  y_intercept :: "real option"
  alpha_line_deg :: real
  alpha_normal_deg :: real
  distance_from_origin :: real
  normal_vector :: "real \<times> real"
  p_signed :: real

text \<open>
  \<open>line_from_general(A, B, C, label, color)\<close>. The plotting calls are left out, except
  that the vertical branch of the plotting code computes \<open>x0 = -C / A\<close>, which raises
  ZeroDivisionError when \<open>A\<close> is zero (and \<open>B\<close> is non-zero but below \<open>1e-9\<close> in size).
\<close>

definition line_from_general :: "real \<Rightarrow> real \<Rightarrow> real \<Rightarrow> py_error + line_props" where
  "line_from_general A B C =
     (if A = 0 \<and> B = 0 then Inl ValueError
      else let norm = hypot A B;
               A_n = A / norm; B_n = B / norm; C_n = C / norm;
               p_sgn = - C_n;
               p = \<bar>p_sgn\<bar>;
               alpha_normal = normalize_angle (rad2deg (atan2 B_n A_n));
               alpha_line = normalize_angle (alpha_normal + 90);
               m = (if \<bar>B\<bar> > 1 / 10 ^ 9 then Fin (- A / B) else PInf);
               y_int = (if \<bar>B\<bar> > 1 / 10 ^ 9 then (if B \<noteq> 0 then Some (- C / B) else None)
                        else None);
               x_int = (if \<bar>A\<bar> > 1 / 10 ^ 9 then Some (- C / A) else None)
           in if \<bar>B\<bar> < 1 / 10 ^ 9 \<and> A = 0 then Inl ZeroDivisionError
              else Inr \<lparr>coef_A = A, coef_B = B, coef_C = C,
                        slope = m,
                        x_intercept = x_int,
                        y_intercept = y_int,
                        alpha_line_deg = alpha_line,
                        alpha_normal_deg = alpha_normal,
                        distance_from_origin = p,
                        normal_vector = (A_n, B_n),
                        p_signed = p_sgn\<rparr>)"

text \<open>
  \<open>print_properties(props, title)\<close> prints one line per constructor below; a constructor
  carries the numbers that the line formats. \<open>props['slope'] == float('inf')\<close> selects
  the line \<open>Vertical line\<close>, \<open>props['slope'] == 0\<close> the line \<open>Horizontal line\<close>, and only
  the remaining case prints the slope and the direction angle as numbers.
\<close>

datatype prop_line =
    Title string
  | Separator
  | GeneralForm real real real
  | VerticalLine
  | HorizontalLine
  | SlopeValue pyfloat
  | AngleWithX real
  | NormalAngle real
  | DistanceFromO real
  | XIntercept real
  | YIntercept real
  | UnitNormal real real

definition print_properties :: "line_props \<Rightarrow> string \<Rightarrow> prop_line list" where
  "print_properties props title =
     [Title title, Separator, GeneralForm (coef_A props) (coef_B props) (coef_C props)]
     @ (if slope props = PInf then [VerticalLine]
        else if slope props = Fin 0 then [HorizontalLine]
        else [SlopeValue (slope props), AngleWithX (alpha_line_deg props)])
     @ [NormalAngle (alpha_normal_deg props), DistanceFromO (distance_from_origin props)]
     @ (case x_intercept props of None \<Rightarrow> [] | Some a \<Rightarrow> [XIntercept a])
     @ (case y_intercept props of None \<Rightarrow> [] | Some b \<Rightarrow> [YIntercept b])
     @ [UnitNormal (fst (normal_vector props)) (snd (normal_vector props))]"

text \<open>
  \<open>case_normal_form()\<close> on the two numbers read from the console: \<open>p\<close> is read and
  checked before \<open>alpha\<close> is read. The label string of the result is left out.
\<close>

definition case_normal_form :: "real \<Rightarrow> real \<Rightarrow> py_error + real \<times> real \<times> real" where
  "case_normal_form p alpha =
     (if p < 0 then Inl ValueError
      else Inr (cos (deg2rad alpha), sin (deg2rad alpha), - p))"

section \<open>triangle\_height.py\<close>

type_synonym point = "real \<times> real"

definition distance :: "point \<Rightarrow> point \<Rightarrow> real" where
  "distance p1 p2 = sqrt ((fst p2 - fst p1) ^ 2 + (snd p2 - snd p1) ^ 2)"

definition vector :: "point \<Rightarrow> point \<Rightarrow> point" where
  "vector p1 p2 = (fst p2 - fst p1, snd p2 - snd p1)"

definition cross_product :: "point \<Rightarrow> point \<Rightarrow> real" where
  "cross_product v1 v2 = fst v1 * snd v2 - snd v1 * fst v2"

definition dot_product :: "point \<Rightarrow> point \<Rightarrow> real" where
  "dot_product v1 v2 = fst v1 * fst v2 + snd v1 * snd v2"

definition point_on_line :: "point \<Rightarrow> point \<Rightarrow> real \<Rightarrow> point" where
  "point_on_line A B t = (fst A + t * (fst B - fst A), snd A + t * (snd B - snd A))"

definition height_from_C_to_AB :: "point \<Rightarrow> point \<Rightarrow> point \<Rightarrow> py_error + real \<times> point" where
  "height_from_C_to_AB A B C =
     (let AB = vector A B;
          AC = vector A C;
          cross_mag = \<bar>cross_product AB AC\<bar>;
          AB_length = distance A B
      in if AB_length < 1 / 10 ^ 10 then Inl ValueError
         else let height = cross_mag / AB_length;
                  AB_squared = fst AB ^ 2 + snd AB ^ 2;
                  t = dot_product AC AB / AB_squared;
                  H = point_on_line A B t
              in Inr (height, H))"

section \<open>calculus/limit\_builder.py and calculus/limit\_explorer.py: the sample tables\<close>

text \<open>
  The function under study is a string handed to Python's \<open>eval\<close> with \<open>x\<close> bound to the
  sample point. \<open>eval\<close> either raises or returns an object, which need not be a float:
  \<open>x**0.5\<close> at a negative \<open>x\<close> is a complex number, \<open>2**x\<close> at an integer \<open>x\<close> is an
  integer. A \<open>bool\<close> is the integer 0 or 1; \<open>PObject\<close> is any other object (\<open>None\<close>, a
  tuple, a list, a function). The function is modelled by \<open>f\<close> from the sample point to
  either an exception (\<open>Inl\<close>, any exception class) or the object returned. An evaluation
  that does not come to an end is not modelled.
\<close>

datatype pyval = PFloat pyfloat | PInt int | PComplex complex | PStr string | PObject

fun isfinite :: "pyfloat \<Rightarrow> bool" where
  "isfinite (Fin r) = True"
| "isfinite PInf = False"
| "isfinite NInf = False"
| "isfinite NaN = False"

text \<open>
  An integer is converted to a float wherever a float is needed; the conversion raises
  OverflowError when the integer rounds to a magnitude beyond the largest binary64
  number, that is from \<open>2^1024 - 2^970\<close> on.
\<close>

definition int_too_large :: "int \<Rightarrow> bool" where
  "int_too_large n = (2 ^ 1024 - 2 ^ 970 \<le> \<bar>n\<bar>)"

text \<open>
  \<open>math.isfinite(v)\<close>: a float is tested, an integer is converted first, every other
  object is refused with TypeError.
\<close>

fun math_isfinite :: "pyval \<Rightarrow> py_error + bool" where
  "math_isfinite (PFloat y) = Inr (isfinite y)"
| "math_isfinite (PInt n) = (if int_too_large n then Inl OverflowError else Inr True)"
| "math_isfinite (PComplex z) = Inl TypeError"
| "math_isfinite (PStr s) = Inl TypeError"
| "math_isfinite PObject = Inl TypeError"

text \<open>
  Formatting an object in an f-string with a float presentation type and right alignment
  (\<open>>12.1e\<close>, \<open>>15.6g\<close>, \<open>>15.8f\<close>, \<open>>20.8g\<close>, ...): floats and complex numbers are
  formatted, an integer is converted to a float first, a string refuses the format code
  with ValueError and every other object refuses a format specification with TypeError.
  The result is the exception, or \<open>None\<close> when the object is formatted.
\<close>

fun format_error :: "pyval \<Rightarrow> py_error option" where
  "format_error (PFloat y) = None"
| "format_error (PInt n) = (if int_too_large n then Some OverflowError else None)"
| "format_error (PComplex z) = None"
| "format_error (PStr s) = Some ValueError"
| "format_error PObject = Some TypeError"

text \<open>Float addition on the special values, as IEEE 754 and Python define it.\<close>

fun fadd :: "pyfloat \<Rightarrow> pyfloat \<Rightarrow> pyfloat" where
  "fadd (Fin x) (Fin y) = Fin (x + y)"
| "fadd NaN b = NaN"
| "fadd a NaN = NaN"
| "fadd PInf NInf = NaN"
| "fadd NInf PInf = NaN"
| "fadd PInf b = PInf"
| "fadd a PInf = PInf"
| "fadd NInf b = NInf"
| "fadd a NInf = NInf"

text \<open>
  \<open>safe_eval(expr, x)\<close> (limit\_builder) and \<open>f_eval(expr, x)\<close> (limit\_explorer): both
  wrap \<open>eval\<close> in \<open>try ... except Exception: return float('nan')\<close> and return what
  \<open>eval\<close> returns otherwise. In \<open>f_eval\<close> the function \<open>f\<close> stands for the evaluation of
  the expression after its two textual replacements.
\<close>

definition safe_eval :: "(pyval \<Rightarrow> 'e + pyval) \<Rightarrow> pyval \<Rightarrow> pyval" where
  "safe_eval f x = (case f x of Inl e \<Rightarrow> PFloat NaN | Inr y \<Rightarrow> y)"

definition f_eval :: "(pyval \<Rightarrow> 'e + pyval) \<Rightarrow> pyval \<Rightarrow> pyval" where
  "f_eval f x = (case f x of Inl e \<Rightarrow> PFloat NaN | Inr y \<Rightarrow> y)"

text \<open>
  The printed report, one constructor per \<open>print\<close>. A \<open>Row\<close> is a table line
  \<open>x | f(x)\<close>; its cell is either the object that is formatted or the word \<open>undefined\<close>.
  \<open>Heading a\<close> is the line naming the target point, \<open>Rule n\<close> a line of \<open>n\<close> dashes or
  equal signs, \<open>ColumnTitles\<close> the line \<open>x | f(x)\<close>, \<open>Blank\<close> an empty line and \<open>Note\<close>
  a fixed sentence. The sentences are written in ASCII: an arrow of the source is \<open>->\<close>,
  a superscript two is \<open>^2\<close>, a square-root sign is \<open>sqrt\<close>, and the emoji that open or
  close a sentence are dropped. A newline at the start of a printed string is not a line
  of its own.
\<close>

datatype cell = Shown pyval | Undefined

datatype report_line =
    Heading pyfloat
  | Rule nat
  | ColumnTitles
  | Row pyval cell
  | Blank
  | Note string

text \<open>
  A run of prints is a list of steps, each of which prints its line or raises. The run
  stops at the first step that raises; its result is the lines printed so far and the
  exception that ended it, if any.
\<close>

fun run_steps :: "(py_error + report_line) list \<Rightarrow> report_line list \<times> py_error option" where
  "run_steps [] = ([], None)"
| "run_steps (Inl e # rest) = ([], Some e)"
| "run_steps (Inr l # rest) = (case run_steps rest of (out, r) \<Rightarrow> (l # out, r))"

text \<open>
  limit\_builder \<open>main()\<close> from the comment \<open>Compute table\<close> to the end: the same five
  offsets in both branches of \<open>if a == 0\<close>, the two sides \<open>[-1, 1]\<close> for each offset, an
  empty line after each pair, and the four lines printed under \<open>if a == 0\<close> at the end.
  One row: \<open>x = a + side * h\<close>, \<open>fx = safe_eval(expr, x)\<close>, then \<open>math.isfinite(fx)\<close>,
  outside any \<open>try\<close>, chooses between the formatted value and the word \<open>undefined\<close>. An
  object that \<open>math.isfinite\<close> accepts as finite is formatted without error.
\<close>

definition builder_hs :: "pyfloat \<Rightarrow> real list" where
  "builder_hs a =
     (if a = Fin 0 then [1, 1 / 10, 1 / 100, 1 / 1000, 1 / 10000]
      else [1, 1 / 10, 1 / 100, 1 / 1000, 1 / 10000])"

definition builder_row :: "(pyval \<Rightarrow> 'e + pyval) \<Rightarrow> pyfloat \<Rightarrow> real \<Rightarrow> real \<Rightarrow> py_error + report_line" where
  "builder_row f a h side =
     (let x = PFloat (fadd a (Fin (side * h)));
          fx = safe_eval f x
      in case math_isfinite fx of
           Inl e \<Rightarrow> Inl e
         | Inr b \<Rightarrow> if b then Inr (Row x (Shown fx)) else Inr (Row x Undefined))"

definition builder_table :: "(pyval \<Rightarrow> 'e + pyval) \<Rightarrow> pyfloat \<Rightarrow> (py_error + report_line) list" where
  "builder_table f a =
     concat (map (\<lambda>h. map (builder_row f a h) [- 1, 1] @ [Inr Blank]) (builder_hs a))"

definition builder_insight :: "pyfloat \<Rightarrow> report_line list" where
  "builder_insight a =
     (if a = Fin 0 then
        [Note ''Analysis for x->0:'',
         Note ''   Numerator ~ tan(3x)*(1 - (1 + sin5x + ...)) ~ 3x * (-5x) = -15x^2'',
         Note ''   Denominator -> 7*sqrt1 - 1 = 6'',
         Note ''   So limit = 0/6 = 0'']
      else [])"

definition limit_builder_main :: "(pyval \<Rightarrow> 'e + pyval) \<Rightarrow> pyfloat \<Rightarrow> report_line list \<times> py_error option" where
  "limit_builder_main f a =
     run_steps (map Inr [Heading a, Rule 45, ColumnTitles, Rule 25]
                @ builder_table f a
                @ map Inr (builder_insight a))"

text \<open>
  limit\_explorer \<open>show_table(expr, a, steps)\<close>: powers of ten (Python integers) towards
  an infinite target, otherwise \<open>steps\<close> rounds of a left and a right sample with \<open>h\<close>
  starting at \<open>1.0\<close> and divided by ten after each round. A row formats the sample point
  and then the object returned by \<open>f_eval\<close>, outside any \<open>try\<close>.
\<close>

definition explorer_row :: "(pyval \<Rightarrow> 'e + pyval) \<Rightarrow> pyval \<Rightarrow> py_error + report_line" where
  "explorer_row f x =
     (let fx = f_eval f x
      in case format_error x of
           Some e \<Rightarrow> Inl e
         | None \<Rightarrow> (case format_error fx of
                      Some e \<Rightarrow> Inl e
                    | None \<Rightarrow> Inr (Row x (Shown fx))))"

fun explorer_rounds :: "(pyval \<Rightarrow> 'e + pyval) \<Rightarrow> pyfloat \<Rightarrow> nat \<Rightarrow> real \<Rightarrow> (py_error + report_line) list" where
  "explorer_rounds f a 0 h = []"
| "explorer_rounds f a (Suc n) h =
     (let x_left = PFloat (fadd a (Fin (- h)));
          x_right = PFloat (fadd a (Fin h))
      in [explorer_row f x_left, explorer_row f x_right, Inr Blank]
         @ explorer_rounds f a n (h / 10))"

definition show_table :: "(pyval \<Rightarrow> 'e + pyval) \<Rightarrow> pyfloat \<Rightarrow> nat \<Rightarrow> (py_error + report_line) list" where
  "show_table f a steps =
     map Inr [Heading a, Rule 50, ColumnTitles, Rule 36]
     @ (if a = PInf then map (\<lambda>i. explorer_row f (PInt (10 ^ i))) [1 ..< steps + 1]
        else if a = NInf then map (\<lambda>i. explorer_row f (PInt (- (10 ^ i)))) [1 ..< steps + 1]
        else explorer_rounds f a steps 1)"

text \<open>
  limit\_explorer \<open>main()\<close> after its inputs are parsed, the plot declined:
  \<open>show_table(expr, a, steps=5)\<close>, then the closing tip, which is printed whatever the
  expression and the target point are.
\<close>

definition limit_explorer_main :: "(pyval \<Rightarrow> 'e + pyval) \<Rightarrow> pyfloat \<Rightarrow> report_line list \<times> py_error option" where
  "limit_explorer_main f a =
     run_steps (show_table f a 5
                @ [Inr (Note ''Tip: At x->0, your example -> 0 (numerator ~ -15x^2, denominator -> 6).'')])"

text \<open>
  Three functions to sample: the constant 1; the expression \<open>x**0.5\<close>, which is a complex
  number at a negative float (only its values at finite floats are used, elsewhere it is
  set to \<open>nan\<close>); and the constant integer \<open>10**400\<close>.
\<close>

definition const_one :: "pyval \<Rightarrow> py_error + pyval" where
  "const_one x = Inr (PFloat (Fin 1))"

fun pow_half :: "pyval \<Rightarrow> py_error + pyval" where
  "pow_half (PFloat (Fin r)) =
     (if r < 0 then Inr (PComplex (Complex 0 (sqrt (- r)))) else Inr (PFloat (Fin (sqrt r))))"
| "pow_half v = Inr (PFloat NaN)"

definition huge_int :: "pyval \<Rightarrow> py_error + pyval" where
  "huge_int x = Inr (PInt (10 ^ 400))"

section \<open>Facts about the vector operations\<close>

lemma sum_list_squares_nonneg: "0 \<le> sum_list (map (\<lambda>x. x * x) (v :: real list))"
  by (induction v) auto

lemma magnitude_nonneg: "0 \<le> magnitude v"
  by (simp add: magnitude_def sum_list_squares_nonneg)

lemma magnitude_sq: "magnitude v * magnitude v = sum_list (map (\<lambda>x. x * x) v)"
  by (simp add: magnitude_def sum_list_squares_nonneg)

lemma sum_list_squares_scale:
  "sum_list (map (\<lambda>x. x * x) (map (\<lambda>x. k * x) v)) = k * k * sum_list (map (\<lambda>x. x * x) (v :: real list))"
  by (induction v) (auto simp: algebra_simps)

lemma magnitude_scale: "magnitude (map (\<lambda>x. k * x) v) = \<bar>k\<bar> * magnitude v"
proof -
  have "magnitude (map (\<lambda>x. k * x) v) = sqrt (k * k * sum_list (map (\<lambda>x. x * x) v))"
    by (simp only: magnitude_def sum_list_squares_scale)
  also have "\<dots> = \<bar>k\<bar> * magnitude v"
    by (simp add: magnitude_def real_sqrt_mult)
  finally show ?thesis .
qed

lemma dot_scale: "dot u (map (\<lambda>x. k * x) u) = k * sum_list (map (\<lambda>x. x * x) u)"
  by (induction u) (auto simp: dot_def algebra_simps)

lemma dot_nth: "dot u v = (\<Sum>i < min (length u) (length v). u ! i * v ! i)"
proof -
  have "dot u v = (\<Sum>i = 0 ..< length (zip u v). map (\<lambda>(a, b). a * b) (zip u v) ! i)"
    unfolding dot_def by (simp add: sum_list_sum_nth)
  also have "\<dots> = (\<Sum>i = 0 ..< min (length u) (length v). u ! i * v ! i)"
    by (rule sum.cong) auto
  finally show ?thesis by (simp add: lessThan_atLeast0)
qed

lemma magnitude_3_4: "magnitude [3, 4] = 5"
  unfolding magnitude_def by (rule real_sqrt_unique) simp_all

lemma magnitude_0_0: "magnitude [0, 0] = 0"
  by (simp add: magnitude_def)

lemma magnitude_m3_m4: "magnitude [- 3, - 4] = 5"
  unfolding magnitude_def by (rule real_sqrt_unique) simp_all

lemma magnitude_unit_exact:
  assumes "0 < magnitude v"
  shows "magnitude (map (\<lambda>x. x / magnitude v) v) = 1"
proof -
  have "map (\<lambda>x. x / magnitude v) v = map (\<lambda>x. (1 / magnitude v) * x) v"
    by simp
  then have "magnitude (map (\<lambda>x. x / magnitude v) v) = \<bar>1 / magnitude v\<bar> * magnitude v"
    by (simp only: magnitude_scale)
  also have "\<dots> = 1" using assms by simp
  finally show ?thesis .
qed

section \<open>Claims about vector\_master.py\<close>

text \<open>
  Claim C6. \<open>unit(v)\<close> raises (a ValueError, the only exception it can raise) if and only
  if \<open>magnitude(v)\<close> is below \<open>1e-10\<close>; for every other \<open>v\<close> it returns
  \<open>v / magnitude(v)\<close>, and the magnitude of that result is within \<open>1e-9\<close> of 1 (over the
  reals it is exactly 1, see \<open>magnitude_unit_exact\<close>).
\<close>

theorem unit_spec:
  "(unit v = Inl ValueError \<longleftrightarrow> magnitude v < 1 / 10 ^ 10) \<and>
   ((\<exists>e. unit v = Inl e) \<longleftrightarrow> magnitude v < 1 / 10 ^ 10) \<and>
   (1 / 10 ^ 10 \<le> magnitude v \<longrightarrow>
      (\<exists>w. unit v = Inr w \<and> w = map (\<lambda>x. x / magnitude v) v \<and> \<bar>magnitude w - 1\<bar> \<le> 1 / 10 ^ 9))"
proof (cases "magnitude v < 1 / 10 ^ 10")
  case True
  then show ?thesis by (simp add: unit_def)
next
  case False
  then have pos: "0 < magnitude v" by simp
  have "magnitude (map (\<lambda>x. x / magnitude v) v) = 1"
    by (rule magnitude_unit_exact [OF pos])
  with False show ?thesis by (simp add: unit_def Let_def)
qed

theorem unit_spec_witness:
  "1 / 10 ^ 10 \<le> magnitude [3, 4] \<and> unit [3, 4] = Inr [3 / 5, 4 / 5] \<and>
   magnitude [0, 0] < 1 / 10 ^ 10 \<and> unit [0, 0] = Inl ValueError"
  using unit_spec [of "[3, 4]"] unit_spec [of "[0, 0]"]
  by (simp add: magnitude_3_4 magnitude_0_0)

text \<open>
  Claim C9. For vectors \<open>u\<close>, \<open>v\<close> of unequal lengths \<open>dot(u, v)\<close> raises nothing (the
  function has no failing branch: \<open>dot\<close> returns a number on all lists) and is the sum of
  the products of the first \<open>min(len(u), len(v))\<close> components; the further components of
  the longer vector do not enter the result.
\<close>

theorem dot_unequal_lengths:
  "length u \<noteq> length v \<Longrightarrow>
     dot u v = (\<Sum>i < min (length u) (length v). u ! i * v ! i)"
  by (rule dot_nth)

theorem dot_unequal_lengths_witness:
  "length [1, 2, 3 :: real] \<noteq> length [4, 5 :: real] \<and> dot [1, 2, 3] [4, 5] = 14"
  using dot_unequal_lengths [of "[1, 2, 3]" "[4, 5]"]
  by (simp add: lessThan_Suc numeral_2_eq_2)

text \<open>Facts about rounding to binary64, and the roundings that the example below needs.\<close>

lemma round_half_even_near:
  assumes "\<bar>z - of_int n\<bar> < 1 / 2"
  shows "round_half_even z = n"
proof -
  have gt: "- (1 / 2) < z - of_int n" and lt: "z - of_int n < 1 / 2"
    using assms by linarith+
  have lo: "of_int (n - 1) \<le> z" and hi: "z < of_int (n + 1)"
    using gt lt by simp_all
  have "n - 1 \<le> \<lfloor>z\<rfloor>" using lo by (simp only: le_floor_iff)
  moreover have "\<lfloor>z\<rfloor> < n + 1" using hi by (simp only: floor_less_iff)
  ultimately have "\<lfloor>z\<rfloor> = n \<or> \<lfloor>z\<rfloor> = n - 1" by arith
  then show ?thesis
  proof
    assume f: "\<lfloor>z\<rfloor> = n"
    with lt show ?thesis by (simp add: round_half_even_def Let_def)
  next
    assume f: "\<lfloor>z\<rfloor> = n - 1"
    have "1 / 2 < z - of_int (n - 1)" using gt by simp
    then have "\<not> z - of_int (n - 1) < 1 / 2" by linarith
    with f \<open>1 / 2 < z - of_int (n - 1)\<close> show ?thesis
      by (simp only: round_half_even_def Let_def if_False if_True)
  qed
qed

lemma floor_log2:
  assumes "0 < x" "2 powr of_int e \<le> x" "x < 2 powr (of_int e + 1)"
  shows "\<lfloor>log 2 x\<rfloor> = e"
proof -
  have "of_int e \<le> log 2 x" using assms(1,2) by (simp add: le_log_iff)
  moreover have "log 2 x < of_int e + 1" using assms(1,3) by (simp add: log_less_iff)
  ultimately show ?thesis by linarith
qed

lemma rnd_value:
  assumes "0 < x" "2 powr of_int e \<le> x" "x < 2 powr (of_int e + 1)"
    and "\<bar>x / 2 powr (of_int e - 52) - of_int n\<bar> < 1 / 2"
  shows "rnd x = 2 powr (of_int e - 52) * of_int n"
proof -
  have e: "\<lfloor>log 2 \<bar>x\<bar>\<rfloor> = e" using floor_log2 [OF assms(1-3)] assms(1) by simp
  have "round_half_even (x / 2 powr (of_int e - 52)) = n"
    by (rule round_half_even_near [OF assms(4)])
  with e assms(1) show ?thesis by (simp add: rnd_def Let_def)
qed

lemma round_half_even_zero:
  assumes "round_half_even z = 0"
  shows "\<bar>z\<bar> \<le> 1 / 2"
  using assms by (auto simp: round_half_even_def Let_def split: if_splits) linarith+

lemma rnd_nonzero:
  assumes "x \<noteq> 0"
  shows "rnd x \<noteq> 0"
proof
  assume z: "rnd x = 0"
  define e where "e = \<lfloor>log 2 \<bar>x\<bar>\<rfloor>"
  define u :: real where "u = 2 powr (of_int e - 52)"
  have u: "0 < u" by (simp add: u_def)
  from z assms have "u * of_int (round_half_even (x / u)) = 0"
    by (simp add: rnd_def Let_def e_def u_def)
  with u have "round_half_even (x / u) = 0" by simp
  then have small: "\<bar>x / u\<bar> \<le> 1 / 2" by (rule round_half_even_zero)
  have "of_int e \<le> log 2 \<bar>x\<bar>" by (simp add: e_def)
  then have "2 powr of_int e \<le> \<bar>x\<bar>" using assms by (simp add: le_log_iff)
  moreover have "u * 2 powr 52 = 2 powr of_int e"
    unfolding u_def by (subst powr_add [symmetric]) simp
  ultimately have "u * 2 powr 52 \<le> \<bar>x\<bar>" by (simp only:)
  moreover have "(1::real) \<le> 2 powr 52" by simp
  ultimately have "u * 1 \<le> \<bar>x\<bar>"
    using u by (meson mult_left_mono less_imp_le order_trans)
  then have "1 \<le> \<bar>x\<bar> / u" using u by (simp add: field_simps)
  with small u show False by simp
qed

lemma rnd_value_num:
  assumes "0 < x" "2 powr of_int e \<le> x" "x < 2 powr (of_int e + 1)"
    and "(of_int n - 1 / 2) * 2 powr (of_int e - 52) < x"
    and "x < (of_int n + 1 / 2) * 2 powr (of_int e - 52)"
  shows "rnd x = of_int n * 2 powr (of_int e - 52)"
proof -
  have u: "0 < (2::real) powr (of_int e - 52)" by simp
  have "of_int n - 1 / 2 < x / 2 powr (of_int e - 52)"
    using assms(4) u by (simp add: pos_less_divide_eq)
  moreover have "x / 2 powr (of_int e - 52) < of_int n + 1 / 2"
    using assms(5) u by (simp add: pos_divide_less_eq)
  ultimately have "\<bar>x / 2 powr (of_int e - 52) - of_int n\<bar> < 1 / 2" by linarith
  from rnd_value [OF assms(1-3) this] show ?thesis by (simp add: mult.commute)
qed

lemma rnd_1: "rnd 1 = 1"
  using rnd_value_num [of 1 0 "2 ^ 52"] by (simp add: powr_minus_divide)

lemma rnd_2: "rnd 2 = 2"
  using rnd_value_num [of 2 1 "2 ^ 52"] by (simp add: powr_minus_divide)

lemma rnd_4: "rnd 4 = 4"
  using rnd_value_num [of 4 2 "2 ^ 52"] by (simp add: powr_minus_divide)

lemma rnd_8: "rnd 8 = 8"
  using rnd_value_num [of 8 3 "2 ^ 52"] by (simp add: powr_minus_divide)

lemma sqrt_between:
  assumes "0 \<le> a" "a\<^sup>2 < x" "x < b\<^sup>2" "0 \<le> b"
  shows "a < sqrt x \<and> sqrt x < b"
proof -
  have "a < sqrt x" using assms(1,2) by (simp add: real_less_rsqrt)
  moreover have "0 \<le> x" using assms(2) by (meson less_imp_le order_trans zero_le_power2)
  then have "sqrt x < b" using assms(3,4) by (simp add: real_less_lsqrt)
  ultimately show ?thesis by (simp add: powr_minus_divide)
qed

lemma rnd_sqrt_2: "rnd (sqrt 2) = 6369051672525773 / 2 ^ 52"
proof -
  have b: "(6369051672525773 - 1 / 2) / 2 ^ 52 < sqrt 2 \<and> sqrt 2 < (6369051672525773 + 1 / 2) / 2 ^ 52"
    by (rule sqrt_between) (simp_all add: power2_eq_square)
  have c: "1 < sqrt 2 \<and> sqrt 2 < 2"
    by (rule sqrt_between) (simp_all add: power2_eq_square)
  show ?thesis
    using rnd_value_num [of "sqrt 2" 0 6369051672525773] b c by (simp add: powr_minus_divide)
qed

lemma rnd_sqrt_8: "rnd (sqrt 8) = 6369051672525773 / 2 ^ 51"
proof -
  have b: "(6369051672525773 - 1 / 2) / 2 ^ 51 < sqrt 8 \<and> sqrt 8 < (6369051672525773 + 1 / 2) / 2 ^ 51"
    by (rule sqrt_between) (simp_all add: power2_eq_square)
  have c: "2 < sqrt 8 \<and> sqrt 8 < 4"
    by (rule sqrt_between) (simp_all add: power2_eq_square)
  show ?thesis
    using rnd_value_num [of "sqrt 8" 1 6369051672525773] b c by (simp add: powr_minus_divide)
qed

lemma rnd_product: "rnd (6369051672525773 / 2 ^ 52 * (6369051672525773 / 2 ^ 51)) = 4503599627370497 / 2 ^ 50"
  using rnd_value_num [of "6369051672525773 / 2 ^ 52 * (6369051672525773 / 2 ^ 51)" 2 4503599627370497]
  by (simp add: powr_minus_divide)

lemma rnd_quotient: "rnd (4 / (4503599627370497 / 2 ^ 50)) = 9007199254740990 / 2 ^ 53"
  using rnd_value_num [of "4 / (4503599627370497 / 2 ^ 50)" "- 1" 9007199254740990]
  by (simp add: powr_minus_divide)

lemma rnd_eps: "rnd (1 / 10 ^ 10) = 7737125245533627 / 2 ^ 86"
  using rnd_value_num [of "1 / 10 ^ 10" "- 34" 7737125245533627]
  by (simp add: powr_minus_divide)

lemma dot_fl_1_1_2_2: "dot_fl [1, 1] [2, 2] = 4"
  by (simp add: dot_fl_def fl_sum_def rnd_2 rnd_4)

lemma magnitude_fl_1_1: "magnitude_fl [1, 1] = 6369051672525773 / 2 ^ 52"
  by (simp add: magnitude_fl_def fl_sum_def rnd_1 rnd_2 rnd_sqrt_2)

lemma magnitude_fl_2_2: "magnitude_fl [2, 2] = 6369051672525773 / 2 ^ 51"
  by (simp add: magnitude_fl_def fl_sum_def rnd_4 rnd_8 rnd_sqrt_8)

lemma arccos_nonzero:
  assumes "- 1 \<le> c" "c < 1"
  shows "arccos c \<noteq> 0"
proof
  assume "arccos c = 0"
  then have "cos (arccos c) = 1" by simp
  moreover have "cos (arccos c) = c" using assms by simp
  ultimately show False using assms(2) by simp
qed

lemma degrees_fl_nonzero:
  assumes "y \<noteq> 0"
  shows "degrees_fl y \<noteq> 0"
proof -
  have "180 / pi_fl \<noteq> 0" by (simp add: pi_fl_def)
  then have "rnd (180 / pi_fl) \<noteq> 0" by (rule rnd_nonzero)
  with assms have "y * rnd (180 / pi_fl) \<noteq> 0" by simp
  then show ?thesis unfolding degrees_fl_def by (rule rnd_nonzero)
qed

text \<open>
  Claim C7, as stated, fails on the floating-point code: for \<open>u = [1, 1]\<close> and
  \<open>v = [2, 2] = 2 * u\<close> the magnitudes are the roundings of \<open>sqrt 2\<close> and \<open>sqrt 8\<close>, their
  rounded product is \<open>4 + 2^-50\<close>, the rounded quotient is \<open>1 - 2^-52\<close>, which the clamp
  leaves as it is, and the angle returned is the rounded \<open>acos\<close> of that number in
  degrees (about \<open>1.2e-6\<close>), not 0.
\<close>

theorem angle_fl_of_a_positive_multiple:
  "angle_fl [1, 1] [2, 2] = Inr (degrees_fl (rnd (arccos (1 - 1 / 2 ^ 52)))) \<and>
   degrees_fl (rnd (arccos (1 - 1 / 2 ^ 52))) \<noteq> 0"
proof -
  have q: "rnd (4 / rnd (6369051672525773 / 2 ^ 52 * (6369051672525773 / 2 ^ 51))) = 1 - 1 / 2 ^ 52"
    by (simp only: rnd_product rnd_quotient) simp
  have "angle_fl [1, 1] [2, 2] = Inr (degrees_fl (rnd (arccos (1 - 1 / 2 ^ 52))))"
    unfolding angle_fl_def Let_def dot_fl_1_1_2_2 magnitude_fl_1_1 magnitude_fl_2_2 rnd_eps q
    by simp
  moreover have "arccos (1 - 1 / 2 ^ 52) \<noteq> (0::real)"
    by (rule arccos_nonzero) simp_all
  then have "degrees_fl (rnd (arccos (1 - 1 / 2 ^ 52))) \<noteq> 0"
    by (intro degrees_fl_nonzero rnd_nonzero)
  ultimately show ?thesis by simp
qed

lemma degrees_arccos_range:
  assumes "- 1 \<le> c" "c \<le> 1"
  shows "0 \<le> degrees (arccos c) \<and> degrees (arccos c) \<le> 180"
proof -
  have a: "0 \<le> arccos c" and b: "arccos c \<le> pi"
    using assms by (simp_all add: arccos_lbound arccos_ubound)
  have "0 \<le> arccos c * (180 / pi)" using a by simp
  moreover have "arccos c * (180 / pi) \<le> pi * (180 / pi)"
    using b by (intro mult_right_mono) simp_all
  ultimately show ?thesis by (simp add: degrees_def)
qed

lemma cosine_of_multiple:
  assumes mu: "0 < magnitude u" and k: "k \<noteq> 0"
  shows "dot u (map (\<lambda>x. k * x) u) / (magnitude u * magnitude (map (\<lambda>x. k * x) u)) = sgn k"
proof -
  have "dot u (map (\<lambda>x. k * x) u) = k * (magnitude u * magnitude u)"
    by (simp only: dot_scale magnitude_sq)
  moreover have "magnitude u * magnitude (map (\<lambda>x. k * x) u) = \<bar>k\<bar> * (magnitude u * magnitude u)"
    by (simp only: magnitude_scale) simp
  ultimately show ?thesis using mu k
    by (simp add: sgn_real_def)
qed

text \<open>
  Claim C7, amended, read in exact real arithmetic. \<open>angle(u, v)\<close> raises (a ValueError)
  exactly when one of the two magnitudes is below \<open>1e-10\<close>. Otherwise it returns
  \<open>degrees(acos(c))\<close>, where \<open>c\<close> is \<open>dot(u, v) / (|u| |v|)\<close> clamped into \<open>[-1, 1]\<close>, a
  value in \<open>[0, 180]\<close>; for \<open>v = k * u\<close> this value is 0 when \<open>k > 0\<close> and 180 when
  \<open>k < 0\<close>. With the operations rounded to binary64 the last part holds only up to
  rounding, as the example above shows; the exception is raised there, too, exactly
  when a rounded magnitude is below the float \<open>1e-10\<close>.
\<close>

theorem angle_spec:
  "(angle u v = Inl ValueError \<longleftrightarrow> magnitude u < 1 / 10 ^ 10 \<or> magnitude v < 1 / 10 ^ 10) \<and>
   ((\<exists>e. angle u v = Inl e) \<longleftrightarrow> magnitude u < 1 / 10 ^ 10 \<or> magnitude v < 1 / 10 ^ 10) \<and>
   (1 / 10 ^ 10 \<le> magnitude u \<and> 1 / 10 ^ 10 \<le> magnitude v \<longrightarrow>
      angle u v =
        Inr (degrees (arccos (max (- 1) (min 1 (dot u v / (magnitude u * magnitude v)))))) \<and>
      (\<exists>\<theta>. angle u v = Inr \<theta> \<and> 0 \<le> \<theta> \<and> \<theta> \<le> 180 \<and>
           (\<forall>k. 0 < k \<and> v = map (\<lambda>x. k * x) u \<longrightarrow> \<theta> = 0) \<and>
           (\<forall>k. k < 0 \<and> v = map (\<lambda>x. k * x) u \<longrightarrow> \<theta> = 180))) \<and>
   (angle_fl u v = Inl ValueError \<longleftrightarrow>
      magnitude_fl u < rnd (1 / 10 ^ 10) \<or> magnitude_fl v < rnd (1 / 10 ^ 10))"
proof (cases "magnitude u < 1 / 10 ^ 10 \<or> magnitude v < 1 / 10 ^ 10")
  case True
  then show ?thesis by (auto simp: angle_def angle_fl_def Let_def)
next
  case False
  define c where "c = max (- 1) (min 1 (dot u v / (magnitude u * magnitude v)))"
  have val: "angle u v = Inr (degrees (arccos c))"
    using False by (simp add: angle_def Let_def c_def)
  have "- 1 \<le> c" "c \<le> 1" by (simp_all add: c_def)
  then have range: "0 \<le> degrees (arccos c) \<and> degrees (arccos c) \<le> 180"
    by (rule degrees_arccos_range)
  have mu: "0 < magnitude u" using False by simp
  have pos: "degrees (arccos c) = 0" if "0 < k" "v = map (\<lambda>x. k * x) u" for k
  proof -
    have k: "k \<noteq> 0" and s: "sgn k = 1" using that by simp_all
    have q: "dot u v / (magnitude u * magnitude v) = 1"
      unfolding that(2) cosine_of_multiple [OF mu k] by (rule s)
    have "c = 1" unfolding c_def q by simp
    then show ?thesis by (simp add: degrees_def)
  qed
  have neg: "degrees (arccos c) = 180" if "k < 0" "v = map (\<lambda>x. k * x) u" for k
  proof -
    have k: "k \<noteq> 0" and s: "sgn k = - 1" using that by simp_all
    have q: "dot u v / (magnitude u * magnitude v) = - 1"
      unfolding that(2) cosine_of_multiple [OF mu k] by (rule s)
    have "c = - 1" unfolding c_def q by simp
    then show ?thesis by (simp add: degrees_def)
  qed
  have ex: "\<exists>\<theta>. angle u v = Inr \<theta> \<and> 0 \<le> \<theta> \<and> \<theta> \<le> 180 \<and>
           (\<forall>k. 0 < k \<and> v = map (\<lambda>x. k * x) u \<longrightarrow> \<theta> = 0) \<and>
           (\<forall>k. k < 0 \<and> v = map (\<lambda>x. k * x) u \<longrightarrow> \<theta> = 180)"
    using val range pos neg by auto
  have fl: "angle_fl u v = Inl ValueError \<longleftrightarrow>
      magnitude_fl u < rnd (1 / 10 ^ 10) \<or> magnitude_fl v < rnd (1 / 10 ^ 10)"
    by (simp add: angle_fl_def Let_def)
  from False val [unfolded c_def] ex fl show ?thesis by (simp add: not_less)
qed

lemma magnitude_6_8: "magnitude [6, 8] = 10"
  unfolding magnitude_def by (rule real_sqrt_unique) simp_all

theorem angle_spec_witness:
  "1 / 10 ^ 10 \<le> magnitude [3, 4] \<and> 1 / 10 ^ 10 \<le> magnitude [6, 8] \<and>
   1 / 10 ^ 10 \<le> magnitude [- 3, - 4] \<and>
   [6, 8] = map (\<lambda>x. 2 * x) [3, 4 :: real] \<and> angle [3, 4] [6, 8] = Inr 0 \<and>
   [- 3, - 4] = map (\<lambda>x. - 1 * x) [3, 4 :: real] \<and> angle [3, 4] [- 3, - 4] = Inr 180 \<and>
   magnitude [0, 0] < 1 / 10 ^ 10 \<and> angle [0, 0] [3, 4] = Inl ValueError"
proof -
  have m1: "1 / 10 ^ 10 \<le> magnitude [3, 4] \<and> 1 / 10 ^ 10 \<le> magnitude [6, 8]"
    by (simp add: magnitude_3_4 magnitude_6_8)
  have m2: "1 / 10 ^ 10 \<le> magnitude [3, 4] \<and> 1 / 10 ^ 10 \<le> magnitude [- 3, - 4]"
    by (simp add: magnitude_3_4 magnitude_m3_m4)
  from angle_spec [of "[3, 4]" "[6, 8]", THEN conjunct2, THEN conjunct2, THEN conjunct1,
      rule_format, OF m1,
      THEN conjunct2]
  obtain \<phi> where p: "angle [3, 4] [6, 8] = Inr \<phi>"
    and j: "\<forall>k::real. 0 < k \<and> [6, 8] = map (\<lambda>x. k * x) [3, 4] \<longrightarrow> \<phi> = 0"
    by blast
  from j [rule_format, of 2] have "\<phi> = 0" by simp
  with p have 1: "angle [3, 4] [6, 8] = Inr 0" by simp
  from angle_spec [of "[3, 4]" "[- 3, - 4]", THEN conjunct2, THEN conjunct2, THEN conjunct1,
      rule_format, OF m2,
      THEN conjunct2]
  obtain \<theta> where t: "angle [3, 4] [- 3, - 4] = Inr \<theta>"
    and k: "\<forall>k::real. k < 0 \<and> [- 3, - 4] = map (\<lambda>x. k * x) [3, 4] \<longrightarrow> \<theta> = 180"
    by blast
  from k [rule_format, of "- 1"] have "\<theta> = 180" by simp
  with t have 2: "angle [3, 4] [- 3, - 4] = Inr 180" by simp
  from angle_spec [of "[0, 0]" "[3, 4]", THEN conjunct1]
  have 3: "angle [0, 0] [3, 4] = Inl ValueError" by (simp add: magnitude_0_0)
  from 1 2 3 m1 m2 show ?thesis by (simp add: magnitude_0_0)
qed

lemma magnitude_not_small:
  assumes "x \<in> set v" "1 / 10 ^ 10 \<le> \<bar>x\<bar>"
  shows "\<not> magnitude v < 1 / 10 ^ 10"
proof -
  have "x * x \<le> sum_list (map (\<lambda>x. x * x) v)"
    using assms(1)
  proof (induction v)
    case Nil
    then show ?case by simp
  next
    case (Cons a v)
    then show ?case using sum_list_squares_nonneg [of v] by (auto simp: add_increasing add_increasing2)
  qed
  then have "sqrt (x * x) \<le> magnitude v"
    unfolding magnitude_def by (rule real_sqrt_le_mono)
  then have "\<bar>x\<bar> \<le> magnitude v" by simp
  with assms(2) show ?thesis by linarith
qed

text \<open>
  Claim C1 says that \<open>linear_dependence\<close> on two vectors returns \<open>True\<close> exactly when one
  is a scalar multiple of the other, a zero component facing a non-zero one making the
  pair independent. The loop makes that test from index 1 on, but at index 0 a zero in the
  second vector only leaves \<open>ratio\<close> at \<open>None\<close>, whatever the first vector holds there:
  \<open>linear_dependence([[1, 1], [0, 1]])\<close> returns \<open>True\<close> although neither vector is a
  multiple of the other.
\<close>

theorem linear_dependence_first_component:
  "linear_dependence [[1, 1], [0, 1]] = Inr (PyBool True) \<and>
   (\<nexists>k. [1, 1] = map (\<lambda>x. k * x) [0, 1 :: real]) \<and>
   (\<nexists>k. [0, 1] = map (\<lambda>x. k * x) [1, 1 :: real])"
proof -
  have a: "\<not> magnitude [1, 1] < 1 / 10 ^ 10"
    by (rule magnitude_not_small [of 1]) simp_all
  have b: "\<not> magnitude [0, 1] < 1 / 10 ^ 10"
    by (rule magnitude_not_small [of 1]) simp_all
  have "linear_dependence [[1, 1], [0, 1]] = Inr (PyBool True)"
    using a b by (simp add: linear_dependence_def Let_def upt_rec)
  then show ?thesis by simp
qed

text \<open>The same mismatch at index 1 is detected.\<close>

lemma linear_dependence_second_component:
  "linear_dependence [[1, 1], [1, 0]] = Inr (PyBool False)"
proof -
  have a: "\<not> magnitude [1, 1] < 1 / 10 ^ 10"
    by (rule magnitude_not_small [of 1]) simp_all
  have b: "\<not> magnitude [1, 0] < 1 / 10 ^ 10"
    by (rule magnitude_not_small [of 1]) simp_all
  show ?thesis
    using a b by (simp add: linear_dependence_def Let_def upt_rec)
qed

section \<open>Claims about line\_master.py\<close>

text \<open>In exact arithmetic the range of \<open>normalize_angle\<close> is closed at -180 and open at 180.\<close>

lemma normalize_angle_range: "- 180 \<le> normalize_angle d \<and> normalize_angle d < 180"
proof -
  have "of_int \<lfloor>(d + 180) / 360\<rfloor> \<le> (d + 180) / 360" by (rule of_int_floor_le)
  moreover have "(d + 180) / 360 < of_int \<lfloor>(d + 180) / 360\<rfloor> + 1" by linarith
  ultimately show ?thesis
    by (simp add: normalize_angle_def pymod_def field_simps)
qed

lemma normalize_angle_180: "normalize_angle 180 = - 180"
  by (simp add: normalize_angle_def pymod_def)

text \<open>
  Claim C3 says that the normal angle and the direction angle are normalized into
  \<open>(-180, 180]\<close>, as the docstring of \<open>normalize_angle\<close> does. The code returns -180 and
  never 180: \<open>normalize_angle(180)\<close> is -180, the line \<open>-x = 0\<close> gets the normal angle
  -180, and the horizontal line \<open>y = 0\<close> (normal angle 90) gets the direction angle -180.
\<close>

theorem normalize_angle_returns_minus_180:
  "normalize_angle 180 = - 180 \<and>
   map_sum id alpha_normal_deg (line_from_general (- 1) 0 0) = Inr (- 180) \<and>
   map_sum id alpha_line_deg (line_from_general 0 1 0) = Inr (- 180)"
  by (simp add: line_from_general_def Let_def hypot_def atan2_def rad2deg_def degrees_def
      normalize_angle_def pymod_def)

lemma line_from_general_returns:
  assumes "\<not> (A = 0 \<and> B = 0)" "\<not> (\<bar>B\<bar> < 1 / 10 ^ 9 \<and> A = 0)"
  shows "\<exists>props. line_from_general A B C = Inr props"
  using assms by (simp add: line_from_general_def Let_def)

lemma line_from_general_slope:
  assumes "line_from_general A B C = Inr props"
  shows "slope props = (if \<bar>B\<bar> > 1 / 10 ^ 9 then Fin (- A / B) else PInf)"
  using assms by (auto simp: line_from_general_def Let_def split: if_splits)

text \<open>
  Claim C2, as stated, fails: for the vertical line \<open>x - 1 = 0\<close> the slope that
  \<open>line_from_general\<close> returns is the float infinity itself.
\<close>

theorem vertical_slope_is_float_infinity:
  "map_sum id slope (line_from_general 1 0 (- 1)) = Inr PInf"
  by (simp add: line_from_general_def Let_def)

text \<open>
  Claim C2, amended. Whenever \<open>line_from_general\<close> returns: if \<open>|B| > 1e-9\<close> the slope is
  \<open>-A/B\<close>; if \<open>|B| \<le> 1e-9\<close> the slope is the float \<open>+inf\<close>, and \<open>print_properties\<close>
  reports it as the line \<open>Vertical line\<close> (the fourth line it prints) and prints no
  numeric slope.
\<close>

theorem slope_of_general_form:
  assumes "line_from_general A B C = Inr props"
  shows "(1 / 10 ^ 9 < \<bar>B\<bar> \<longrightarrow> slope props = Fin (- A / B)) \<and>
         (\<bar>B\<bar> \<le> 1 / 10 ^ 9 \<longrightarrow>
            slope props = PInf \<and>
            print_properties props title ! 3 = VerticalLine \<and>
            (\<forall>m. SlopeValue m \<notin> set (print_properties props title)))"
proof -
  have s: "slope props = (if \<bar>B\<bar> > 1 / 10 ^ 9 then Fin (- A / B) else PInf)"
    by (rule line_from_general_slope [OF assms])
  show ?thesis
  proof (cases "1 / 10 ^ 9 < \<bar>B\<bar>")
    case True
    with s show ?thesis by simp
  next
    case False
    with s have "slope props = PInf" by simp
    then have "print_properties props title ! 3 = VerticalLine \<and>
               (\<forall>m. SlopeValue m \<notin> set (print_properties props title))"
      by (auto simp: print_properties_def split: option.splits)
    with False \<open>slope props = PInf\<close> show ?thesis by simp
  qed
qed

theorem slope_of_general_form_witness:
  "map_sum id slope (line_from_general 1 0 (- 1)) = Inr PInf \<and>
   map_sum id (\<lambda>p. print_properties p ''Line Properties'' ! 3) (line_from_general 1 0 (- 1))
     = Inr VerticalLine \<and>
   map_sum id slope (line_from_general 3 2 1) = Inr (Fin (- 3 / 2))"
proof -
  obtain p where p: "line_from_general 1 0 (- 1) = Inr p"
    using line_from_general_returns [of 1 0 "- 1"] by auto
  obtain q where q: "line_from_general 3 2 1 = Inr q"
    using line_from_general_returns [of 3 2 1] by auto
  from slope_of_general_form [OF p, of "''Line Properties''"] slope_of_general_form [OF q]
  show ?thesis by (simp add: p q)
qed

lemma hypot_cos_sin: "hypot (cos x) (sin x) = 1"
proof -
  have "cos x * cos x + sin x * sin x = 1"
    using sin_cos_squared_add2 [of x] by (simp add: power2_eq_square)
  then show ?thesis by (simp add: hypot_def)
qed

lemma cos_sin_not_both_zero: "\<not> (cos x = 0 \<and> sin x = (0::real))"
proof
  assume "cos x = 0 \<and> sin x = 0"
  then have "(cos x)\<^sup>2 + (sin x)\<^sup>2 = 0" by simp
  then show False by (simp only: sin_cos_squared_add2)
qed

lemma sin_one_of_cos_zero:
  assumes "cos x = (0::real)"
  shows "\<bar>sin x\<bar> = 1"
proof -
  have "(cos x)\<^sup>2 + (sin x)\<^sup>2 = 1" by (rule sin_cos_squared_add2)
  then have "(sin x)\<^sup>2 = 1" by (simp only: assms) simp
  then have "sin x = 1 \<or> sin x = - 1" by (simp only: power2_eq_1_iff)
  then show ?thesis by auto
qed

text \<open>
  Claim C8. \<open>case_normal_form\<close> fails for \<open>p < 0\<close>; for \<open>p \<ge> 0\<close> and any angle it yields
  the coefficients \<open>(cos alpha, sin alpha, -p)\<close>, and \<open>line_from_general\<close> on these
  coefficients returns with distance from the origin \<open>p\<close>; for \<open>p = 5\<close> and
  \<open>alpha = 0\<close> the coefficients are \<open>(1, 0, -5)\<close>, the distance read back is 5 and the
  normal angle is 0.
\<close>

theorem normal_form_round_trip:
  "(p < 0 \<longrightarrow> case_normal_form p \<alpha> = Inl ValueError) \<and>
   (0 \<le> p \<longrightarrow>
      case_normal_form p \<alpha> = Inr (cos (deg2rad \<alpha>), sin (deg2rad \<alpha>), - p) \<and>
      (\<exists>props. line_from_general (cos (deg2rad \<alpha>)) (sin (deg2rad \<alpha>)) (- p) = Inr props \<and>
               distance_from_origin props = p)) \<and>
   case_normal_form 5 0 = Inr (1, 0, - 5) \<and>
   (\<exists>props. line_from_general 1 0 (- 5) = Inr props \<and>
            distance_from_origin props = 5 \<and> alpha_normal_deg props = 0)"
proof -
  have neg: "case_normal_form p \<alpha> = Inl ValueError" if "p < 0"
    using that by (simp add: case_normal_form_def)
  have pos: "case_normal_form p \<alpha> = Inr (cos (deg2rad \<alpha>), sin (deg2rad \<alpha>), - p)" if "0 \<le> p"
    using that by (simp add: case_normal_form_def)
  have rt: "\<exists>props. line_from_general (cos (deg2rad \<alpha>)) (sin (deg2rad \<alpha>)) (- p) = Inr props \<and>
               distance_from_origin props = p" if "0 \<le> p"
  proof -
    have nz: "\<not> (cos (deg2rad \<alpha>) = 0 \<and> sin (deg2rad \<alpha>) = 0)"
      by (rule cos_sin_not_both_zero)
    have nd: "\<not> (\<bar>sin (deg2rad \<alpha>)\<bar> < 1 / 10 ^ 9 \<and> cos (deg2rad \<alpha>) = 0)"
      using sin_one_of_cos_zero [of "deg2rad \<alpha>"] by auto
    show ?thesis
      using nz nd that by (simp add: line_from_general_def Let_def hypot_cos_sin)
  qed
  have five: "case_normal_form 5 0 = Inr (1, 0, - 5)"
    by (simp add: case_normal_form_def deg2rad_def radians_def)
  have five_rt: "\<exists>props. line_from_general 1 0 (- 5) = Inr props \<and>
            distance_from_origin props = 5 \<and> alpha_normal_deg props = 0"
    by (simp add: line_from_general_def Let_def hypot_def atan2_def rad2deg_def degrees_def
        normalize_angle_def pymod_def)
  from neg pos rt five five_rt show ?thesis by blast
qed

theorem normal_form_round_trip_witness:
  "case_normal_form (- 1) 30 = Inl ValueError \<and>
   case_normal_form 2 90 = Inr (0, 1, - 2) \<and>
   map_sum id distance_from_origin (line_from_general 0 1 (- 2)) = Inr 2"
proof -
  have c: "cos (deg2rad 90) = 0" and s: "sin (deg2rad 90) = 1"
    by (simp_all add: deg2rad_def radians_def)
  from normal_form_round_trip [of "- 1" 30] normal_form_round_trip [of 2 90]
  show ?thesis by (auto simp: c s)
qed

section \<open>Claims about triangle\_height.py\<close>

lemma distance_sq: "distance p q ^ 2 = (fst q - fst p) ^ 2 + (snd q - snd p) ^ 2"
  by (simp add: distance_def)

lemma foot_orthogonal:
  fixes dx dy ex ey :: real
  assumes "dx\<^sup>2 + dy\<^sup>2 \<noteq> 0"
  defines "t \<equiv> (ex * dx + ey * dy) / (dx\<^sup>2 + dy\<^sup>2)"
  shows "(ex - t * dx) * dx + (ey - t * dy) * dy = 0"
proof -
  have "(ex - t * dx) * dx + (ey - t * dy) * dy = (ex * dx + ey * dy) - t * (dx\<^sup>2 + dy\<^sup>2)"
    by (simp add: algebra_simps power2_eq_square)
  also have "t * (dx\<^sup>2 + dy\<^sup>2) = ex * dx + ey * dy"
    using assms(1) by (simp add: t_def)
  finally show ?thesis by simp
qed

lemma foot_distance_sq:
  fixes dx dy ex ey :: real
  assumes "dx\<^sup>2 + dy\<^sup>2 \<noteq> 0"
  defines "t \<equiv> (ex * dx + ey * dy) / (dx\<^sup>2 + dy\<^sup>2)"
  shows "(t * dx - ex)\<^sup>2 + (t * dy - ey)\<^sup>2 = (dx * ey - dy * ex)\<^sup>2 / (dx\<^sup>2 + dy\<^sup>2)"
proof -
  define S where "S = dx\<^sup>2 + dy\<^sup>2"
  define D where "D = ex * dx + ey * dy"
  have S: "S \<noteq> 0" using assms(1) by (simp add: S_def)
  have t: "t * S = D" using S by (simp add: t_def S_def D_def)
  have "((t * dx - ex)\<^sup>2 + (t * dy - ey)\<^sup>2) * S
        = (t * S) * (t * S) - 2 * (t * S) * D + (ex\<^sup>2 + ey\<^sup>2) * S"
    by (simp add: S_def D_def power2_eq_square algebra_simps)
  also have "\<dots> = (ex\<^sup>2 + ey\<^sup>2) * S - D * D"
    by (simp add: t)
  also have "\<dots> = (dx * ey - dy * ex)\<^sup>2"
    by (simp add: S_def D_def power2_eq_square algebra_simps)
  finally have "((t * dx - ex)\<^sup>2 + (t * dy - ey)\<^sup>2) * S = (dx * ey - dy * ex)\<^sup>2" .
  then show ?thesis using S by (simp add: S_def field_simps)
qed

text \<open>
  Claim C10. For points \<open>A\<close>, \<open>B\<close>, \<open>C\<close> with \<open>distance(A, B) \<ge> 1e-10\<close> the function
  \<open>height_from_C_to_AB\<close> returns a height and a foot \<open>H\<close> such that
  \<open>H = A + t * (B - A)\<close> with \<open>t = (AC . AB) / |AB|^2\<close>, the vector from \<open>H\<close> to \<open>C\<close> is
  orthogonal to \<open>B - A\<close>, and the height is \<open>distance(C, H)\<close>.
\<close>

theorem height_foot_properties:
  assumes "1 / 10 ^ 10 \<le> distance A B"
  shows "\<exists>height H t.
           height_from_C_to_AB A B C = Inr (height, H) \<and>
           t = dot_product (vector A C) (vector A B) / (distance A B)\<^sup>2 \<and>
           H = (fst A + t * (fst B - fst A), snd A + t * (snd B - snd A)) \<and>
           dot_product (vector H C) (vector A B) = 0 \<and>
           height = distance C H"
proof -
  define dx where "dx = fst B - fst A"
  define dy where "dy = snd B - snd A"
  define ex where "ex = fst C - fst A"
  define ey where "ey = snd C - snd A"
  define S where "S = dx\<^sup>2 + dy\<^sup>2"
  define t where "t = (ex * dx + ey * dy) / S"
  define H where "H = (fst A + t * dx, snd A + t * dy)"
  define height where "height = \<bar>dx * ey - dy * ex\<bar> / distance A B"
  have L: "0 < distance A B" using assms by (simp add: less_le_trans [OF _ assms])
  have LS: "(distance A B)\<^sup>2 = S" by (simp add: distance_sq S_def dx_def dy_def)
  have S: "S \<noteq> 0" using L LS by auto
  have S': "dx\<^sup>2 + dy\<^sup>2 \<noteq> 0" using S by (simp add: S_def)
  have ret: "height_from_C_to_AB A B C = Inr (height, H)"
    using assms
    by (simp add: height_from_C_to_AB_def Let_def vector_def cross_product_def dot_product_def
        point_on_line_def height_def H_def t_def S_def dx_def dy_def ex_def ey_def not_less)
  have tt: "t = dot_product (vector A C) (vector A B) / (distance A B)\<^sup>2"
    by (simp add: LS t_def dot_product_def vector_def dx_def dy_def ex_def ey_def)
  have orth: "dot_product (vector H C) (vector A B) = 0"
  proof -
    have "dot_product (vector H C) (vector A B) = (ex - t * dx) * dx + (ey - t * dy) * dy"
      by (simp add: dot_product_def vector_def H_def dx_def dy_def ex_def ey_def algebra_simps)
    also have "\<dots> = 0"
      unfolding t_def S_def by (rule foot_orthogonal [OF S'])
    finally show ?thesis .
  qed
  have hd: "height = distance C H"
  proof -
    have "(distance C H)\<^sup>2 = (t * dx - ex)\<^sup>2 + (t * dy - ey)\<^sup>2"
      by (simp add: distance_sq H_def ex_def ey_def algebra_simps)
    also have "\<dots> = (dx * ey - dy * ex)\<^sup>2 / S"
      unfolding t_def S_def by (rule foot_distance_sq [OF S'])
    also have "\<dots> = height\<^sup>2"
      by (simp add: height_def power_divide LS)
    finally have "(distance C H)\<^sup>2 = height\<^sup>2" .
    moreover have "0 \<le> distance C H" by (simp add: distance_def)
    moreover have "0 \<le> height" using L by (simp add: height_def)
    ultimately show ?thesis by simp
  qed
  from ret tt orth hd show ?thesis
    by (intro exI [of _ height] exI [of _ H] exI [of _ t]) (simp add: H_def dx_def dy_def)
qed

lemma distance_0_4: "distance (0, 0) (4, 0) = 4"
  unfolding distance_def by (rule real_sqrt_unique) simp_all

lemma distance_1_3: "distance (1, 3) (1, 0) = 3"
  unfolding distance_def by (rule real_sqrt_unique) simp_all

theorem height_foot_properties_witness:
  "1 / 10 ^ 10 \<le> distance (0, 0) (4, 0) \<and>
   height_from_C_to_AB (0, 0) (4, 0) (1, 3) = Inr (3, (1, 0))"
proof -
  have d: "1 / 10 ^ 10 \<le> distance (0, 0) (4, 0)" by (simp add: distance_0_4)
  from height_foot_properties [OF d, of "(1, 3)"]
  show ?thesis by (auto simp: distance_0_4 distance_1_3 dot_product_def vector_def)
qed

section \<open>Claims about the limit sampler\<close>

lemma run_steps_Inr:
  "run_steps (Inr l # rest) = (l # fst (run_steps rest), snd (run_steps rest))"
  by (simp add: case_prod_beta)

lemma run_steps_append_ok:
  "run_steps (xs @ map Inr ys) =
     (case snd (run_steps xs) of
        None \<Rightarrow> (fst (run_steps xs) @ ys, None)
      | Some e \<Rightarrow> run_steps xs)"
proof (induction xs rule: run_steps.induct)
  case 1
  show ?case by (induction ys) (simp_all add: run_steps_Inr del: run_steps.simps(3))
next
  case (2 e rest)
  show ?case by simp
next
  case (3 l rest)
  then show ?case by (simp add: run_steps_Inr split: option.splits del: run_steps.simps(3))
qed

lemma run_steps_lines:
  assumes "list_all2 (\<lambda>s l. \<forall>m. s = Inr m \<longrightarrow> m = l) steps lines"
  shows "(snd (run_steps steps) = None \<longrightarrow> fst (run_steps steps) = lines) \<and>
         (\<exists>rest. fst (run_steps steps) @ rest = lines)"
  using assms
proof (induction steps lines rule: list_all2_induct)
  case Nil
  show ?case by simp
next
  case (Cons s steps l lines)
  show ?case
  proof (cases s)
    case (Inl e)
    then show ?thesis by simp
  next
    case (Inr m)
    with Cons.hyps(1) have "m = l" by simp
    with Inr Cons.IH show ?thesis by (simp add: run_steps_Inr del: run_steps.simps(3))
  qed
qed

lemma builder_row_line:
  "builder_row f a h side = Inr m \<Longrightarrow>
     m = Row (PFloat (fadd a (Fin (side * h))))
           (if math_isfinite (safe_eval f (PFloat (fadd a (Fin (side * h))))) = Inr True
            then Shown (safe_eval f (PFloat (fadd a (Fin (side * h))))) else Undefined)"
  by (auto simp: builder_row_def Let_def split: sum.splits if_splits)

lemma explorer_row_line:
  "explorer_row f x = Inr m \<Longrightarrow> m = Row x (Shown (f_eval f x))"
  by (auto simp: explorer_row_def Let_def split: option.splits)

lemma builder_table_lines:
  "list_all2 (\<lambda>s l. \<forall>m. s = Inr m \<longrightarrow> m = l) (builder_table f a)
     (concat (map (\<lambda>h.
        [Row (PFloat (fadd a (Fin (- h))))
           (if math_isfinite (safe_eval f (PFloat (fadd a (Fin (- h))))) = Inr True
            then Shown (safe_eval f (PFloat (fadd a (Fin (- h))))) else Undefined),
         Row (PFloat (fadd a (Fin h)))
           (if math_isfinite (safe_eval f (PFloat (fadd a (Fin h)))) = Inr True
            then Shown (safe_eval f (PFloat (fadd a (Fin h)))) else Undefined),
         Blank]) [1, 1 / 10, 1 / 100, 1 / 1000, 1 / 10000]))"
proof -
  define R where "R d = Row (PFloat (fadd a (Fin d)))
           (if math_isfinite (safe_eval f (PFloat (fadd a (Fin d)))) = Inr True
            then Shown (safe_eval f (PFloat (fadd a (Fin d)))) else Undefined)" for d
  have r: "\<forall>m. builder_row f a h side = Inr m \<longrightarrow> m = R (side * h)" for h side
    unfolding R_def using builder_row_line [of f a h side] by blast
  have "list_all2 (\<lambda>s l. \<forall>m. s = Inr m \<longrightarrow> m = l) (builder_table f a)
     (concat (map (\<lambda>h. [R (- h), R h, Blank]) [1, 1 / 10, 1 / 100, 1 / 1000, 1 / 10000]))"
    using r [of 1 "- 1"] r [of 1 1] r [of "1 / 10" "- 1"] r [of "1 / 10" 1]
      r [of "1 / 100" "- 1"] r [of "1 / 100" 1] r [of "1 / 1000" "- 1"] r [of "1 / 1000" 1]
      r [of "1 / 10000" "- 1"] r [of "1 / 10000" 1]
    by (simp add: builder_table_def builder_hs_def)
  then show ?thesis by (simp only: R_def)
qed

lemma explorer_rounds_lines:
  "list_all2 (\<lambda>s l. \<forall>m. s = Inr m \<longrightarrow> m = l) (explorer_rounds f a n h)
     (concat (map (\<lambda>k.
        [Row (PFloat (fadd a (Fin (- (h / 10 ^ k))))) (Shown (f_eval f (PFloat (fadd a (Fin (- (h / 10 ^ k))))))),
         Row (PFloat (fadd a (Fin (h / 10 ^ k)))) (Shown (f_eval f (PFloat (fadd a (Fin (h / 10 ^ k)))))),
         Blank]) [0 ..< n]))"
proof (induction n arbitrary: h)
  case 0
  show ?case by simp
next
  case (Suc n)
  have shift: "map (\<lambda>k.
        [Row (PFloat (fadd a (Fin (- (h / 10 ^ k))))) (Shown (f_eval f (PFloat (fadd a (Fin (- (h / 10 ^ k))))))),
         Row (PFloat (fadd a (Fin (h / 10 ^ k)))) (Shown (f_eval f (PFloat (fadd a (Fin (h / 10 ^ k)))))),
         Blank]) [0 ..< Suc n]
      = [Row (PFloat (fadd a (Fin (- h)))) (Shown (f_eval f (PFloat (fadd a (Fin (- h)))))),
         Row (PFloat (fadd a (Fin h))) (Shown (f_eval f (PFloat (fadd a (Fin h))))),
         Blank]
        # map (\<lambda>k.
        [Row (PFloat (fadd a (Fin (- (h / 10 / 10 ^ k))))) (Shown (f_eval f (PFloat (fadd a (Fin (- (h / 10 / 10 ^ k))))))),
         Row (PFloat (fadd a (Fin (h / 10 / 10 ^ k)))) (Shown (f_eval f (PFloat (fadd a (Fin (h / 10 / 10 ^ k)))))),
         Blank]) [0 ..< n]"
    by (simp only: upt_conv_Cons [of 0 "Suc n"] map_Suc_upt [symmetric]) (simp add: comp_def)
  show ?case
    unfolding shift
    using Suc.IH [of "h / 10"] explorer_row_line [of f "PFloat (fadd a (Fin (- h)))"]
      explorer_row_line [of f "PFloat (fadd a (Fin h))"]
    by (simp add: Let_def list_all2_appendI)
qed

lemma explorer_powers_lines:
  "list_all2 (\<lambda>s l. \<forall>m. s = Inr m \<longrightarrow> m = l) (map (\<lambda>i. explorer_row f (g i)) xs)
     (map (\<lambda>i. Row (g i) (Shown (f_eval f (g i)))) xs)"
  using explorer_row_line [of f] by (induction xs) auto

lemma run_report:
  assumes "list_all2 (\<lambda>s l. \<forall>m. s = Inr m \<longrightarrow> m = l) steps lines"
    and "run_steps (steps @ map Inr tail) = (out, r)"
  shows "(r = None \<longrightarrow> out = lines @ tail) \<and> (r \<noteq> None \<longrightarrow> (\<exists>rest. out @ rest = lines))"
proof (cases "snd (run_steps steps)")
  case None
  with assms(2) have "out = fst (run_steps steps) @ tail" "r = None"
    by (simp_all add: run_steps_append_ok)
  with None run_steps_lines [OF assms(1)] show ?thesis by simp
next
  case (Some e)
  with assms(2) have "out = fst (run_steps steps)" "r = Some e"
    by (auto simp: run_steps_append_ok)
  with run_steps_lines [OF assms(1)] show ?thesis by simp
qed

lemma header_lines:
  "list_all2 (\<lambda>s l. \<forall>m. s = Inr m \<longrightarrow> m = l) (map Inr hs) hs"
  by (induction hs) simp_all


lemma explorer_rounds_5:
  "explorer_rounds f a 5 h =
     [explorer_row f (PFloat (fadd a (Fin (- h)))), explorer_row f (PFloat (fadd a (Fin h))), Inr Blank,
      explorer_row f (PFloat (fadd a (Fin (- (h / 10))))), explorer_row f (PFloat (fadd a (Fin (h / 10)))), Inr Blank,
      explorer_row f (PFloat (fadd a (Fin (- (h / 100))))), explorer_row f (PFloat (fadd a (Fin (h / 100)))), Inr Blank,
      explorer_row f (PFloat (fadd a (Fin (- (h / 1000))))), explorer_row f (PFloat (fadd a (Fin (h / 1000)))), Inr Blank,
      explorer_row f (PFloat (fadd a (Fin (- (h / 10000))))), explorer_row f (PFloat (fadd a (Fin (h / 10000)))), Inr Blank]"
proof -
  have five: "(5::nat) = Suc (Suc (Suc (Suc (Suc 0))))" by simp
  show ?thesis unfolding five by (simp add: Let_def)
qed

text \<open>Four runs, evaluated: the constant 1 at the target point 0 in both scripts,
  \<open>x**0.5\<close> in limit\_builder and the integer \<open>10**400\<close> in limit\_explorer.\<close>

lemma builder_run_const_one:
  "limit_builder_main const_one (Fin 0) =
     ([Heading (Fin 0), Rule 45, ColumnTitles, Rule 25,
       Row (PFloat (Fin (- 1))) (Shown (PFloat (Fin 1))),
       Row (PFloat (Fin 1)) (Shown (PFloat (Fin 1))), Blank,
       Row (PFloat (Fin (- (1 / 10)))) (Shown (PFloat (Fin 1))),
       Row (PFloat (Fin (1 / 10))) (Shown (PFloat (Fin 1))), Blank,
       Row (PFloat (Fin (- (1 / 100)))) (Shown (PFloat (Fin 1))),
       Row (PFloat (Fin (1 / 100))) (Shown (PFloat (Fin 1))), Blank,
       Row (PFloat (Fin (- (1 / 1000)))) (Shown (PFloat (Fin 1))),
       Row (PFloat (Fin (1 / 1000))) (Shown (PFloat (Fin 1))), Blank,
       Row (PFloat (Fin (- (1 / 10000)))) (Shown (PFloat (Fin 1))),
       Row (PFloat (Fin (1 / 10000))) (Shown (PFloat (Fin 1))), Blank,
       Note ''Analysis for x->0:'',
       Note ''   Numerator ~ tan(3x)*(1 - (1 + sin5x + ...)) ~ 3x * (-5x) = -15x^2'',
       Note ''   Denominator -> 7*sqrt1 - 1 = 6'',
       Note ''   So limit = 0/6 = 0''], None)"
proof -
  have b: "builder_row const_one (Fin 0) h side = Inr (Row (PFloat (Fin (side * h))) (Shown (PFloat (Fin 1))))"
    for h side
    by (simp add: builder_row_def safe_eval_def const_one_def Let_def)
  show ?thesis
    by (simp add: limit_builder_main_def builder_table_def builder_hs_def b builder_insight_def)
qed

lemma explorer_run_const_one:
  "limit_explorer_main const_one (Fin 0) =
     ([Heading (Fin 0), Rule 50, ColumnTitles, Rule 36,
       Row (PFloat (Fin (- 1))) (Shown (PFloat (Fin 1))),
       Row (PFloat (Fin 1)) (Shown (PFloat (Fin 1))), Blank,
       Row (PFloat (Fin (- (1 / 10)))) (Shown (PFloat (Fin 1))),
       Row (PFloat (Fin (1 / 10))) (Shown (PFloat (Fin 1))), Blank,
       Row (PFloat (Fin (- (1 / 100)))) (Shown (PFloat (Fin 1))),
       Row (PFloat (Fin (1 / 100))) (Shown (PFloat (Fin 1))), Blank,
       Row (PFloat (Fin (- (1 / 1000)))) (Shown (PFloat (Fin 1))),
       Row (PFloat (Fin (1 / 1000))) (Shown (PFloat (Fin 1))), Blank,
       Row (PFloat (Fin (- (1 / 10000)))) (Shown (PFloat (Fin 1))),
       Row (PFloat (Fin (1 / 10000))) (Shown (PFloat (Fin 1))), Blank,
       Note ''Tip: At x->0, your example -> 0 (numerator ~ -15x^2, denominator -> 6).''], None)"
proof -
  have e: "explorer_row const_one (PFloat x) = Inr (Row (PFloat x) (Shown (PFloat (Fin 1))))" for x
    by (simp add: explorer_row_def f_eval_def const_one_def Let_def)
  show ?thesis
    by (simp add: limit_explorer_main_def show_table_def explorer_rounds_5 e)
qed

lemma builder_run_pow_half:
  "limit_builder_main pow_half (Fin 0) =
     ([Heading (Fin 0), Rule 45, ColumnTitles, Rule 25], Some TypeError)"
proof -
  have b: "builder_row pow_half (Fin 0) 1 (- 1) = Inl TypeError"
    by (simp add: builder_row_def safe_eval_def Let_def)
  show ?thesis
    by (simp add: limit_builder_main_def builder_table_def builder_hs_def b)
qed

lemma explorer_run_huge_int:
  "limit_explorer_main huge_int (Fin 0) =
     ([Heading (Fin 0), Rule 50, ColumnTitles, Rule 36], Some OverflowError)"
proof -
  have e: "explorer_row huge_int (PFloat (Fin (- 1))) = Inl OverflowError"
    by (simp add: explorer_row_def f_eval_def huge_int_def int_too_large_def Let_def)
  show ?thesis
    by (simp add: limit_explorer_main_def show_table_def explorer_rounds_5 e)
qed

text \<open>
  What the \<open>try\<close> of \<open>safe_eval\<close> does isolate: where the expression raises or evaluates
  to a float at every sample point, limit\_builder prints its whole report.
\<close>

lemma run_steps_all_printed:
  assumes "\<forall>s \<in> set steps. \<exists>m. s = Inr m"
  shows "snd (run_steps steps) = None"
  using assms by (induction steps) (auto simp: run_steps_Inr simp del: run_steps.simps(3))

lemma builder_completes_on_floats:
  assumes "\<forall>x v. f x = Inr v \<longrightarrow> (\<exists>y. v = PFloat y)"
  shows "snd (limit_builder_main f a) = None"
proof -
  have row: "\<exists>m. builder_row f a h side = Inr m" for h side
  proof -
    obtain y where "safe_eval f (PFloat (fadd a (Fin (side * h)))) = PFloat y"
      using assms by (cases "f (PFloat (fadd a (Fin (side * h))))") (auto simp: safe_eval_def)
    then show ?thesis by (simp add: builder_row_def Let_def)
  qed
  show ?thesis
    unfolding limit_builder_main_def
    by (rule run_steps_all_printed) (auto simp: builder_table_def builder_hs_def row)
qed

text \<open>
  Claim C4, as stated, fails: sampling the constant function 1 at the target point 0,
  both scripts run to the end, limit\_builder ends its output with the sentence
  \<open>So limit = 0/6 = 0\<close>, and limit\_explorer ends with a tip saying that the example
  tends to 0.
\<close>

theorem limit_builder_prints_a_limit:
  "snd (limit_builder_main const_one (Fin 0)) = None \<and>
   last (fst (limit_builder_main const_one (Fin 0))) = Note ''   So limit = 0/6 = 0'' \<and>
   snd (limit_explorer_main const_one (Fin 0)) = None \<and>
   last (fst (limit_explorer_main const_one (Fin 0))) =
     Note ''Tip: At x->0, your example -> 0 (numerator ~ -15x^2, denominator -> 6).''"
  by (simp add: builder_run_const_one explorer_run_const_one)

text \<open>
  Claim C4, amended. For every function and target point, a run that is not ended by an
  exception prints exactly: the heading of the table; one row for each sample point, in
  order, holding the sample point and the value of the function there (in limit\_builder
  the word \<open>undefined\<close> where \<open>math.isfinite\<close> does not accept the value as finite; in
  limit\_explorer the float \<open>nan\<close> where the evaluation raised), with an empty line after
  each pair; and then sentences that do not depend on the function: in limit\_builder,
  when the target point equals 0, the four lines of an analysis that ends with
  \<open>So limit = 0/6 = 0\<close>, and nothing otherwise; in limit\_explorer, always, the tip that
  the example tends to 0. A run ended by an exception has printed an initial part of the
  heading and the rows, and none of these sentences.
\<close>

theorem limit_reports_shape:
  fixes f :: "pyval \<Rightarrow> 'e + pyval"
  assumes "limit_builder_main f a = (out, r)" and "limit_explorer_main f a = (out', r')"
  shows
   "(r = None \<longrightarrow>
       out = [Heading a, Rule 45, ColumnTitles, Rule 25]
           @ concat (map (\<lambda>h.
               [Row (PFloat (fadd a (Fin (- h))))
                  (if math_isfinite (safe_eval f (PFloat (fadd a (Fin (- h))))) = Inr True
                   then Shown (safe_eval f (PFloat (fadd a (Fin (- h))))) else Undefined),
                Row (PFloat (fadd a (Fin h)))
                  (if math_isfinite (safe_eval f (PFloat (fadd a (Fin h)))) = Inr True
                   then Shown (safe_eval f (PFloat (fadd a (Fin h)))) else Undefined),
                Blank]) [1, 1 / 10, 1 / 100, 1 / 1000, 1 / 10000])
           @ (if a = Fin 0 then
                [Note ''Analysis for x->0:'',
                 Note ''   Numerator ~ tan(3x)*(1 - (1 + sin5x + ...)) ~ 3x * (-5x) = -15x^2'',
                 Note ''   Denominator -> 7*sqrt1 - 1 = 6'',
                 Note ''   So limit = 0/6 = 0'']
              else [])) \<and>
    (r \<noteq> None \<longrightarrow>
       (\<exists>rest. out @ rest =
          [Heading a, Rule 45, ColumnTitles, Rule 25]
          @ concat (map (\<lambda>h.
               [Row (PFloat (fadd a (Fin (- h))))
                  (if math_isfinite (safe_eval f (PFloat (fadd a (Fin (- h))))) = Inr True
                   then Shown (safe_eval f (PFloat (fadd a (Fin (- h))))) else Undefined),
                Row (PFloat (fadd a (Fin h)))
                  (if math_isfinite (safe_eval f (PFloat (fadd a (Fin h)))) = Inr True
                   then Shown (safe_eval f (PFloat (fadd a (Fin h)))) else Undefined),
                Blank]) [1, 1 / 10, 1 / 100, 1 / 1000, 1 / 10000]))) \<and>
    (r' = None \<longrightarrow>
       out' = [Heading a, Rule 50, ColumnTitles, Rule 36]
            @ (if a = PInf then
                 map (\<lambda>i. Row (PInt (10 ^ i)) (Shown (f_eval f (PInt (10 ^ i))))) [1 ..< 6]
               else if a = NInf then
                 map (\<lambda>i. Row (PInt (- (10 ^ i))) (Shown (f_eval f (PInt (- (10 ^ i)))))) [1 ..< 6]
               else
                 concat (map (\<lambda>k.
                   [Row (PFloat (fadd a (Fin (- (1 / 10 ^ k)))))
                      (Shown (f_eval f (PFloat (fadd a (Fin (- (1 / 10 ^ k))))))),
                    Row (PFloat (fadd a (Fin (1 / 10 ^ k))))
                      (Shown (f_eval f (PFloat (fadd a (Fin (1 / 10 ^ k)))))),
                    Blank]) [0 ..< 5]))
            @ [Note ''Tip: At x->0, your example -> 0 (numerator ~ -15x^2, denominator -> 6).'']) \<and>
    (r' \<noteq> None \<longrightarrow>
       (\<exists>rest. out' @ rest =
          [Heading a, Rule 50, ColumnTitles, Rule 36]
          @ (if a = PInf then
               map (\<lambda>i. Row (PInt (10 ^ i)) (Shown (f_eval f (PInt (10 ^ i))))) [1 ..< 6]
             else if a = NInf then
               map (\<lambda>i. Row (PInt (- (10 ^ i))) (Shown (f_eval f (PInt (- (10 ^ i)))))) [1 ..< 6]
             else
               concat (map (\<lambda>k.
                 [Row (PFloat (fadd a (Fin (- (1 / 10 ^ k)))))
                    (Shown (f_eval f (PFloat (fadd a (Fin (- (1 / 10 ^ k))))))),
                  Row (PFloat (fadd a (Fin (1 / 10 ^ k))))
                    (Shown (f_eval f (PFloat (fadd a (Fin (1 / 10 ^ k)))))),
                  Blank]) [0 ..< 5]))))"
proof -
  have b: "list_all2 (\<lambda>s l. \<forall>m. s = Inr m \<longrightarrow> m = l)
      (map Inr [Heading a, Rule 45, ColumnTitles, Rule 25] @ builder_table f a)
      ([Heading a, Rule 45, ColumnTitles, Rule 25]
       @ concat (map (\<lambda>h.
               [Row (PFloat (fadd a (Fin (- h))))
                  (if math_isfinite (safe_eval f (PFloat (fadd a (Fin (- h))))) = Inr True
                   then Shown (safe_eval f (PFloat (fadd a (Fin (- h))))) else Undefined),
                Row (PFloat (fadd a (Fin h)))
                  (if math_isfinite (safe_eval f (PFloat (fadd a (Fin h)))) = Inr True
                   then Shown (safe_eval f (PFloat (fadd a (Fin h)))) else Undefined),
                Blank]) [1, 1 / 10, 1 / 100, 1 / 1000, 1 / 10000]))"
    by (rule list_all2_appendI [OF header_lines builder_table_lines])
  have bm: "run_steps ((map Inr [Heading a, Rule 45, ColumnTitles, Rule 25] @ builder_table f a)
      @ map Inr (builder_insight a)) = (out, r)"
    using assms(1) by (simp add: limit_builder_main_def)
  have e: "list_all2 (\<lambda>s l. \<forall>m. s = Inr m \<longrightarrow> m = l) (show_table f a 5)
      ([Heading a, Rule 50, ColumnTitles, Rule 36]
          @ (if a = PInf then
               map (\<lambda>i. Row (PInt (10 ^ i)) (Shown (f_eval f (PInt (10 ^ i))))) [1 ..< 6]
             else if a = NInf then
               map (\<lambda>i. Row (PInt (- (10 ^ i))) (Shown (f_eval f (PInt (- (10 ^ i)))))) [1 ..< 6]
             else
               concat (map (\<lambda>k.
                 [Row (PFloat (fadd a (Fin (- (1 / 10 ^ k)))))
                    (Shown (f_eval f (PFloat (fadd a (Fin (- (1 / 10 ^ k))))))),
                  Row (PFloat (fadd a (Fin (1 / 10 ^ k))))
                    (Shown (f_eval f (PFloat (fadd a (Fin (1 / 10 ^ k)))))),
                  Blank]) [0 ..< 5])))"
  proof -
    have body: "list_all2 (\<lambda>s l. \<forall>m. s = Inr m \<longrightarrow> m = l)
        (if a = PInf then map (\<lambda>i. explorer_row f (PInt (10 ^ i))) [1 ..< 6]
         else if a = NInf then map (\<lambda>i. explorer_row f (PInt (- (10 ^ i)))) [1 ..< 6]
         else explorer_rounds f a 5 1)
        (if a = PInf then
               map (\<lambda>i. Row (PInt (10 ^ i)) (Shown (f_eval f (PInt (10 ^ i))))) [1 ..< 6]
             else if a = NInf then
               map (\<lambda>i. Row (PInt (- (10 ^ i))) (Shown (f_eval f (PInt (- (10 ^ i)))))) [1 ..< 6]
             else
               concat (map (\<lambda>k.
                 [Row (PFloat (fadd a (Fin (- (1 / 10 ^ k)))))
                    (Shown (f_eval f (PFloat (fadd a (Fin (- (1 / 10 ^ k))))))),
                  Row (PFloat (fadd a (Fin (1 / 10 ^ k))))
                    (Shown (f_eval f (PFloat (fadd a (Fin (1 / 10 ^ k)))))),
                  Blank]) [0 ..< 5]))"
    proof (cases "a = PInf")
      case True
      then show ?thesis
        using explorer_powers_lines [of f "\<lambda>i. PInt (10 ^ i)" "[1 ..< 6]"] by simp
    next
      case False
      show ?thesis
      proof (cases "a = NInf")
        case True
        with False show ?thesis
          using explorer_powers_lines [of f "\<lambda>i. PInt (- (10 ^ i))" "[1 ..< 6]"]
          by simp
      next
        case n: False
        with False show ?thesis
          using explorer_rounds_lines [of f a 5 1] by simp
      qed
    qed
    have six: "[1 ..< 5 + 1] = [1 ..< (6::nat)]" by simp
    show ?thesis
      unfolding show_table_def six by (rule list_all2_appendI [OF header_lines body])
  qed
  have em: "run_steps (show_table f a 5
      @ map Inr [Note ''Tip: At x->0, your example -> 0 (numerator ~ -15x^2, denominator -> 6).''])
      = (out', r')"
    using assms(2) by (simp add: limit_explorer_main_def)
  note B = run_report [OF b bm, unfolded builder_insight_def append_assoc]
  note E = run_report [OF e em, unfolded append_assoc]
  from B E show ?thesis by (intro conjI) (rule conjunct1, assumption | rule conjunct2, assumption)+
qed

theorem limit_reports_shape_witness:
  "snd (limit_builder_main const_one (Fin 0)) = None \<and>
   drop 19 (fst (limit_builder_main const_one (Fin 0))) =
     [Note ''Analysis for x->0:'',
      Note ''   Numerator ~ tan(3x)*(1 - (1 + sin5x + ...)) ~ 3x * (-5x) = -15x^2'',
      Note ''   Denominator -> 7*sqrt1 - 1 = 6'',
      Note ''   So limit = 0/6 = 0''] \<and>
   snd (limit_explorer_main const_one (Fin 0)) = None \<and>
   drop 19 (fst (limit_explorer_main const_one (Fin 0))) =
     [Note ''Tip: At x->0, your example -> 0 (numerator ~ -15x^2, denominator -> 6).''] \<and>
   snd (limit_builder_main pow_half (Fin 0)) = Some TypeError \<and>
   length (fst (limit_builder_main pow_half (Fin 0))) = 4 \<and>
   snd (limit_explorer_main huge_int (Fin 0)) = Some OverflowError \<and>
   length (fst (limit_explorer_main huge_int (Fin 0))) = 4"
proof -
  obtain out r out' r' where
    1: "limit_builder_main const_one (Fin 0) = (out, r)" and
    2: "limit_explorer_main const_one (Fin 0) = (out', r')"
    by (meson surj_pair)
  have n: "r = None" "r' = None"
    using 1 2 by (simp_all add: builder_run_const_one explorer_run_const_one)
  from limit_reports_shape [OF 1 2] n
  have "drop 19 out = [Note ''Analysis for x->0:'',
      Note ''   Numerator ~ tan(3x)*(1 - (1 + sin5x + ...)) ~ 3x * (-5x) = -15x^2'',
      Note ''   Denominator -> 7*sqrt1 - 1 = 6'',
      Note ''   So limit = 0/6 = 0'']"
    and "drop 19 out' = [Note ''Tip: At x->0, your example -> 0 (numerator ~ -15x^2, denominator -> 6).'']"
    by (simp_all add: eval_nat_numeral)
  with 1 2 n have a: "snd (limit_builder_main const_one (Fin 0)) = None \<and>
   drop 19 (fst (limit_builder_main const_one (Fin 0))) =
     [Note ''Analysis for x->0:'',
      Note ''   Numerator ~ tan(3x)*(1 - (1 + sin5x + ...)) ~ 3x * (-5x) = -15x^2'',
      Note ''   Denominator -> 7*sqrt1 - 1 = 6'',
      Note ''   So limit = 0/6 = 0''] \<and>
   snd (limit_explorer_main const_one (Fin 0)) = None \<and>
   drop 19 (fst (limit_explorer_main const_one (Fin 0))) =
     [Note ''Tip: At x->0, your example -> 0 (numerator ~ -15x^2, denominator -> 6).'']"
    by simp
  obtain out3 r3 out4 r4 where
    3: "limit_explorer_main pow_half (Fin 0) = (out3, r3)" and
    4: "limit_builder_main huge_int (Fin 0) = (out4, r4)"
    by (meson surj_pair)
  from limit_reports_shape [OF builder_run_pow_half 3] limit_reports_shape [OF 4 explorer_run_huge_int]
  have "snd (limit_builder_main pow_half (Fin 0)) = Some TypeError \<and>
   length (fst (limit_builder_main pow_half (Fin 0))) = 4 \<and>
   snd (limit_explorer_main huge_int (Fin 0)) = Some OverflowError \<and>
   length (fst (limit_explorer_main huge_int (Fin 0))) = 4"
    by (simp add: builder_run_pow_half explorer_run_huge_int)
  with a show ?thesis by simp
qed

text \<open>
  Claim C5 says that no failure at a sample point aborts the trace. The \<open>try\<close> of
  \<open>safe_eval\<close> and \<open>f_eval\<close> covers only \<open>eval\<close>: an expression that evaluates, without
  raising, to something that is not a float ends the run at that sample point. Sampling
  \<open>x**0.5\<close> at the target point 0, limit\_builder evaluates the first point \<open>-1\<close> to a
  complex number, \<open>math.isfinite\<close> raises TypeError, and the run ends after the heading
  with no row printed. Sampling the integer \<open>10**400\<close>, limit\_explorer raises
  OverflowError when it formats the first row.
\<close>

theorem sampler_aborts_on_a_sample:
  "limit_builder_main pow_half (Fin 0) =
     ([Heading (Fin 0), Rule 45, ColumnTitles, Rule 25], Some TypeError) \<and>
   limit_explorer_main huge_int (Fin 0) =
     ([Heading (Fin 0), Rule 50, ColumnTitles, Rule 36], Some OverflowError)"
  by (simp add: builder_run_pow_half explorer_run_huge_int)

end
